theory Spec2Isabelle
  imports Complex_Main "HOL-Library.Word"
begin

unbundle bit_operations_syntax

section \<open>Data model of the synchronisation controller\<close>

text \<open>
  The development embeds \<^verbatim>\<open>SyncController\<close> (SyncController.h, SyncController.cpp)
  and the Song Position Pointer decoding of \<^verbatim>\<open>MidiEngine::processQueuedMessages\<close>.

  Conventions of the embedding.
  \<^item> A C++ \<^verbatim>\<open>double\<close> is a \<^typ>\<open>real\<close>: arithmetic is exact, so a comparison
    whose two sides differ by less than a rounding error may come out differently in the
    program. A C++ \<^verbatim>\<open>int\<close> is an unbounded \<^typ>\<open>int\<close>: the counters are only
    incremented and signed overflow is undefined in C++, so the model is the program as
    long as the counters stay below \<open>2^31\<close>.
  \<^item> A \<^verbatim>\<open>std::chrono::high_resolution_clock::time_point\<close> is its count of
    nanoseconds; every function that reads \<^verbatim>\<open>Clock::now()\<close> takes the instant read
    as the argument \<open>now\<close>.
  \<^item> The pointers \<^verbatim>\<open>m_engine\<close> and \<^verbatim>\<open>m_syncTimer\<close> are booleans (non-null);
    the timer's interval and activity are fields of their own.
  \<^item> The mutex is left out: every slot runs on the thread of the controller, and the
    slots connected to its signals do not call back into it.
  \<^item> Every outbound call on the engine and every Qt signal is appended to the field
    \<open>m_out\<close>, in program order. Debug output is left out.
\<close>

type_synonym time_point = int

datatype out_event =
    NoteOn int int int
  | NoteOff int int int
  | SystemMessage int
  | RunningChanged bool
  | BpmChanged real
  | ClockTick
  | BeatSent int
  | PositionChanged int real

record sync_state =
  m_engine :: bool
  m_syncTimer :: bool
  timerInterval :: int
  timerActive :: bool
  m_isRunning :: bool
  m_currentBPM :: real
  m_clockCount :: int
  m_incomingClockCount :: int
  m_bpmUpdateBlocked :: bool
  m_transportSyncBlocked :: bool
  m_currentPositionBeats :: int
  m_currentPositionQuarterNotes :: real
  m_lastEmittedWholeNote :: int
  m_midiChannel :: int
  m_midiNote :: int
  m_midiVelocity :: int
  m_noteOn :: bool
  s_lastClockTime :: time_point
  s_clockWindow :: int
  m_lastClockMessageTime :: time_point
  m_predictedNextBoundaryQuarterNotes :: real
  m_boundaryPending :: bool
  m_clocksSinceLastBoundary :: int
  m_startTime :: time_point
  m_out :: "out_event list"

definition CLOCKS_PER_QUARTER_NOTE :: int where
  "CLOCKS_PER_QUARTER_NOTE = 24"

definition CLOCKS_PER_WHOLE_NOTE :: int where
  "CLOCKS_PER_WHOLE_NOTE = 96"

definition EMISSION_ADVANCE_MS :: real where
  "EMISSION_ADVANCE_MS = 70"

text \<open>
  Modelled from the spec: the status bytes behind the constants
  \<^verbatim>\<open>drumstick::rt::MIDI_REALTIME_CLOCK\<close>, \<^verbatim>\<open>MIDI_REALTIME_START\<close> and
  \<^verbatim>\<open>MIDI_REALTIME_STOP\<close> of the drumstick library, which is not part of the
  repository (0xF8, 0xFA and 0xFC in the table of outbound messages).
\<close>

definition MIDI_REALTIME_CLOCK :: int where
  "MIDI_REALTIME_CLOCK = 248"

definition MIDI_REALTIME_START :: int where
  "MIDI_REALTIME_START = 250"

definition MIDI_REALTIME_STOP :: int where
  "MIDI_REALTIME_STOP = 252"

text \<open>\<^verbatim>\<open>static_cast<int>\<close> of a double truncates towards zero.\<close>

definition static_cast_int :: "real \<Rightarrow> int" where
  "static_cast_int x = (if 0 \<le> x then \<lfloor>x\<rfloor> else \<lceil>x\<rceil>)"

text \<open>
  \<^verbatim>\<open>duration_cast<microseconds>\<close> of a difference of time points: integer division
  of the nanosecond count by 1000, truncating towards zero.
\<close>

definition duration_cast_microseconds :: "int \<Rightarrow> int" where
  "duration_cast_microseconds d = (if 0 \<le> d then d div 1000 else - ((- d) div 1000))"

definition emit :: "out_event \<Rightarrow> sync_state \<Rightarrow> sync_state" where
  "emit e s = s\<lparr>m_out := m_out s @ [e]\<rparr>"

section \<open>The controller\<close>

text \<open>The constructor; \<open>engine\<close> tells whether the engine pointer passed is non-null.\<close>

definition SyncController :: "bool \<Rightarrow> time_point \<Rightarrow> sync_state" where
  "SyncController engine now =
     \<lparr>m_engine = engine, m_syncTimer = False, timerInterval = 0, timerActive = False,
      m_isRunning = False, m_currentBPM = 120, m_clockCount = 0, m_incomingClockCount = 0,
      m_bpmUpdateBlocked = False, m_transportSyncBlocked = False,
      m_currentPositionBeats = 0, m_currentPositionQuarterNotes = 0,
      m_lastEmittedWholeNote = - 1, m_midiChannel = 0, m_midiNote = 60,
      m_midiVelocity = 100, m_noteOn = False, s_lastClockTime = now, s_clockWindow = 0,
      m_lastClockMessageTime = now, m_predictedNextBoundaryQuarterNotes = - 1,
      m_boundaryPending = False, m_clocksSinceLastBoundary = 0, m_startTime = now,
      m_out = []\<rparr>"

definition blockBPMUpdates :: "bool \<Rightarrow> sync_state \<Rightarrow> sync_state" where
  "blockBPMUpdates block s = s\<lparr>m_bpmUpdateBlocked := block\<rparr>"

definition blockTransportSync :: "bool \<Rightarrow> sync_state \<Rightarrow> sync_state" where
  "blockTransportSync block s = s\<lparr>m_transportSyncBlocked := block\<rparr>"

definition updateSyncTimer :: "sync_state \<Rightarrow> sync_state" where
  "updateSyncTimer s =
     (if \<not> m_syncTimer s then s
      else let intervalMs = (60 / m_currentBPM s / 24) * 1000
           in s\<lparr>timerInterval := static_cast_int intervalMs\<rparr>)"

definition setBPM :: "real \<Rightarrow> sync_state \<Rightarrow> sync_state" where
  "setBPM bpm s =
     (if bpm \<ge> 20 \<and> bpm \<le> 300 then
        let s1 = s\<lparr>m_currentBPM := bpm\<rparr>;
            s2 = (if m_syncTimer s1 then updateSyncTimer s1 else s1)
        in emit (BpmChanged bpm) s2
      else s)"

definition start :: "bool \<Rightarrow> time_point \<Rightarrow> sync_state \<Rightarrow> sync_state" where
  "start sendStartCommand now s =
     (let s1 = (if \<not> m_syncTimer s then s\<lparr>m_syncTimer := True\<rparr> else s);
          s2 = s1\<lparr>m_isRunning := True, m_startTime := now\<rparr>;
          s3 = updateSyncTimer s2;
          s4 = s3\<lparr>timerActive := True\<rparr>;
          s5 = (if sendStartCommand \<and> m_engine s4
                then emit (SystemMessage MIDI_REALTIME_START) s4 else s4)
      in emit (RunningChanged True) s5)"

definition stop :: "bool \<Rightarrow> sync_state \<Rightarrow> sync_state" where
  "stop sendStopCommand s =
     (let s1 = (if m_syncTimer s then s\<lparr>timerActive := False\<rparr> else s);
          noteWasOn = m_noteOn s1;
          s2 = s1\<lparr>m_clockCount := 0, m_isRunning := False, m_currentPositionBeats := 0,
                  m_currentPositionQuarterNotes := 0, m_lastEmittedWholeNote := - 1,
                  m_predictedNextBoundaryQuarterNotes := - 1, m_boundaryPending := False,
                  m_clocksSinceLastBoundary := 0\<rparr>;
          s3 = (if m_engine s2 then
                  let s2a = (if noteWasOn
                             then (emit (NoteOff (m_midiChannel s2) (m_midiNote s2) 0) s2)
                                    \<lparr>m_noteOn := False\<rparr>
                             else s2)
                  in (if sendStopCommand
                      then emit (SystemMessage MIDI_REALTIME_STOP) s2a else s2a)
                else s2)
      in emit (PositionChanged 0 0) (emit (RunningChanged False) s3))"

definition handleDAWStart :: "time_point \<Rightarrow> sync_state \<Rightarrow> sync_state" where
  "handleDAWStart now s =
     (if \<not> m_transportSyncBlocked s \<and> \<not> m_isRunning s then
        let s1 = s\<lparr>m_transportSyncBlocked := True, m_clockCount := 0,
                   m_currentPositionBeats := 0, m_currentPositionQuarterNotes := 0,
                   m_lastEmittedWholeNote := - 1,
                   m_predictedNextBoundaryQuarterNotes := 0, m_boundaryPending := False,
                   m_clocksSinceLastBoundary := 0, s_lastClockTime := now,
                   s_clockWindow := 0, m_lastClockMessageTime := now, m_startTime := now,
                   m_isRunning := True\<rparr>;
            s2 = emit (RunningChanged True) s1
        in s2\<lparr>m_transportSyncBlocked := False\<rparr>
      else s)"

definition handleDAWStop :: "sync_state \<Rightarrow> sync_state" where
  "handleDAWStop s =
     (if \<not> m_transportSyncBlocked s \<and> m_isRunning s then
        let s1 = s\<lparr>m_transportSyncBlocked := True\<rparr>;
            s2 = stop False s1
        in s2\<lparr>m_transportSyncBlocked := False\<rparr>
      else s)"

definition handleDAWContinue :: "time_point \<Rightarrow> sync_state \<Rightarrow> sync_state" where
  "handleDAWContinue now s =
     (if \<not> m_transportSyncBlocked s \<and> \<not> m_isRunning s then
        let currentWholeNote = static_cast_int (m_currentPositionQuarterNotes s / 4);
            positionInCurrentBoundary =
              m_currentPositionQuarterNotes s - (real_of_int currentWholeNote * 4);
            s1 = s\<lparr>m_transportSyncBlocked := True,
                   m_lastEmittedWholeNote := currentWholeNote - 1,
                   m_predictedNextBoundaryQuarterNotes := real_of_int currentWholeNote * 4,
                   m_boundaryPending := False,
                   m_clocksSinceLastBoundary :=
                     static_cast_int (positionInCurrentBoundary
                                      * real_of_int CLOCKS_PER_QUARTER_NOTE),
                   s_lastClockTime := now, s_clockWindow := 0,
                   m_lastClockMessageTime := now, m_startTime := now,
                   m_isRunning := True\<rparr>;
            s2 = emit (RunningChanged True) s1
        in s2\<lparr>m_transportSyncBlocked := False\<rparr>
      else s)"

subsection \<open>The boundary scheduler\<close>

text \<open>
  \<^verbatim>\<open>checkAndEmitWholeNote\<close> works in three steps, each under the mutex of its own:
  the note-on decision, the note-off decision, and the emission. The quantities
  computed before the first step depend on the position only.
\<close>

definition currentBoundaryOf :: "real \<Rightarrow> int" where
  "currentBoundaryOf positionQuarterNotes = \<lfloor>positionQuarterNotes / 4\<rfloor>"

definition positionInBoundaryOf :: "real \<Rightarrow> real" where
  "positionInBoundaryOf positionQuarterNotes =
     positionQuarterNotes - (real_of_int (currentBoundaryOf positionQuarterNotes) * 4)"

definition ticksToNextBoundaryOf :: "real \<Rightarrow> real" where
  "ticksToNextBoundaryOf positionQuarterNotes =
     (4 - positionInBoundaryOf positionQuarterNotes) * real_of_int CLOCKS_PER_QUARTER_NOTE"

text \<open>The advance window in ticks, from the stored BPM (lines 420 to 433).\<close>

definition emissionAdvanceTicksOf :: "real \<Rightarrow> real" where
  "emissionAdvanceTicksOf currentBPM =
     (let bpm = (if currentBPM < 20 \<or> currentBPM > 300 then 120 else currentBPM);
          msPerTick = (60000 / bpm) / real_of_int CLOCKS_PER_QUARTER_NOTE;
          emissionAdvanceTicks = EMISSION_ADVANCE_MS / msPerTick
      in if emissionAdvanceTicks < 1.5 then 1.5 else emissionAdvanceTicks)"

definition isFirstDownbeatOf :: "sync_state \<Rightarrow> real \<Rightarrow> bool" where
  "isFirstDownbeatOf s positionQuarterNotes =
     (currentBoundaryOf positionQuarterNotes = 0 \<and> m_lastEmittedWholeNote s < 0
      \<and> positionQuarterNotes < 1)"

definition shouldEmitOf :: "sync_state \<Rightarrow> real \<Rightarrow> bool" where
  "shouldEmitOf s positionQuarterNotes =
     (isFirstDownbeatOf s positionQuarterNotes
      \<or> (currentBoundaryOf positionQuarterNotes + 1 > m_lastEmittedWholeNote s
         \<and> ticksToNextBoundaryOf positionQuarterNotes
             \<le> emissionAdvanceTicksOf (m_currentBPM s)))"

definition boundaryToEmitOf :: "sync_state \<Rightarrow> real \<Rightarrow> int" where
  "boundaryToEmitOf s positionQuarterNotes =
     (if isFirstDownbeatOf s positionQuarterNotes
      then currentBoundaryOf positionQuarterNotes
      else currentBoundaryOf positionQuarterNotes + 1)"

text \<open>Lines 411 to 463: the note-on decision marks the boundary as emitted.\<close>

definition noteOnDecision :: "real \<Rightarrow> sync_state \<Rightarrow> sync_state" where
  "noteOnDecision positionQuarterNotes s =
     (if shouldEmitOf s positionQuarterNotes then
        let boundaryToEmit = boundaryToEmitOf s positionQuarterNotes
        in s\<lparr>m_lastEmittedWholeNote := boundaryToEmit,
             m_predictedNextBoundaryQuarterNotes := (real_of_int boundaryToEmit + 1) * 4,
             m_clocksSinceLastBoundary := 0\<rparr>
      else s)"

text \<open>Lines 465 to 489: the note-off decision and the note-off.\<close>

definition noteShouldBeOffOf :: "sync_state \<Rightarrow> real \<Rightarrow> bool" where
  "noteShouldBeOffOf s positionQuarterNotes =
     (m_noteOn s \<and> positionInBoundaryOf positionQuarterNotes > 0
      \<and> positionInBoundaryOf positionQuarterNotes < 0.4)"

definition noteOffDecision :: "real \<Rightarrow> sync_state \<Rightarrow> sync_state" where
  "noteOffDecision positionQuarterNotes s =
     (if noteShouldBeOffOf s positionQuarterNotes then
        let s1 = s\<lparr>m_noteOn := False\<rparr>
        in (if m_engine s1 then emit (NoteOff (m_midiChannel s1) (m_midiNote s1) 0) s1
            else s1)
      else s)"

text \<open>
  Lines 513 to 543: the emission. \<open>shouldEmit\<close>, \<open>quarterNoteCount\<close>,
  \<open>positionBeats\<close> and \<open>currentPositionQuarterNotes\<close> are the locals set by the
  note-on decision.
\<close>

definition emitNote :: "bool \<Rightarrow> int \<Rightarrow> int \<Rightarrow> real \<Rightarrow> sync_state \<Rightarrow> sync_state" where
  "emitNote shouldEmit quarterNoteCount positionBeats currentPositionQuarterNotes s =
     (if shouldEmit \<and> m_engine s then
        let s1 = emit (NoteOn (m_midiChannel s) (m_midiNote s) (m_midiVelocity s)) s;
            s2 = s1\<lparr>m_noteOn := True\<rparr>;
            s3 = emit (BeatSent quarterNoteCount) s2
        in emit (PositionChanged positionBeats currentPositionQuarterNotes) s3
      else s)"

definition checkAndEmitWholeNote :: "real \<Rightarrow> sync_state \<Rightarrow> sync_state" where
  "checkAndEmitWholeNote positionQuarterNotes s =
     (let shouldEmit = shouldEmitOf s positionQuarterNotes;
          quarterNoteCount =
            (if shouldEmit then boundaryToEmitOf s positionQuarterNotes * 4 else 0);
          positionBeats = (if shouldEmit then m_currentPositionBeats s else 0);
          currentPositionQuarterNotes =
            (if shouldEmit then m_currentPositionQuarterNotes s else 0);
          s1 = noteOnDecision positionQuarterNotes s;
          s2 = noteOffDecision positionQuarterNotes s1
      in emitNote shouldEmit quarterNoteCount positionBeats currentPositionQuarterNotes s2)"

subsection \<open>Inbound clock, song position pointer and the internal tick\<close>

text \<open>Lines 235 to 290: the update of the position under the mutex.\<close>

definition sppUpdate :: "int \<Rightarrow> real \<Rightarrow> sync_state \<Rightarrow> sync_state" where
  "sppUpdate positionBeats positionQuarterNotes s =
     (if positionBeats \<ge> 0 then
        let previousPosition = m_currentPositionQuarterNotes s;
            s1 = s\<lparr>m_currentPositionBeats := positionBeats,
                   m_currentPositionQuarterNotes := positionQuarterNotes,
                   m_clockCount := positionBeats * 4\<rparr>;
            isSeekingBackwards = (positionQuarterNotes < previousPosition - 0.5);
            currentWholeNote = static_cast_int (positionQuarterNotes / 4);
            fractionIntoBoundary = positionQuarterNotes - (real_of_int currentWholeNote * 4);
            s2 = (if \<not> m_isRunning s1 \<or> isSeekingBackwards then
                    let s1a = (if fractionIntoBoundary < 2
                               then s1\<lparr>m_lastEmittedWholeNote := currentWholeNote - 1\<rparr>
                               else s1\<lparr>m_lastEmittedWholeNote := currentWholeNote\<rparr>)
                    in s1a\<lparr>m_predictedNextBoundaryQuarterNotes :=
                              (real_of_int (m_lastEmittedWholeNote s1a) + 1) * 4\<rparr>
                  else s1)
        in s2\<lparr>m_clocksSinceLastBoundary :=
                 static_cast_int (fractionIntoBoundary * real_of_int CLOCKS_PER_QUARTER_NOTE)\<rparr>
      else s)"

definition handleSongPositionPointer :: "int \<Rightarrow> real \<Rightarrow> sync_state \<Rightarrow> sync_state" where
  "handleSongPositionPointer positionBeats positionQuarterNotes s =
     (let s1 = sppUpdate positionBeats positionQuarterNotes s;
          isRunning = (if positionBeats \<ge> 0 then m_isRunning s1 else False);
          s2 = (if isRunning \<and> positionQuarterNotes \<ge> 0
                then checkAndEmitWholeNote positionQuarterNotes s1 else s1)
      in emit (PositionChanged positionBeats positionQuarterNotes) s2)"

text \<open>Lines 337 to 381: the BPM window.\<close>

definition elapsedSecondsOf :: "time_point \<Rightarrow> time_point \<Rightarrow> real" where
  "elapsedSecondsOf currentTime lastClockTimeForBPM =
     real_of_int (duration_cast_microseconds (currentTime - lastClockTimeForBPM)) / 1000000"

definition bpmCalculation :: "time_point \<Rightarrow> time_point \<Rightarrow> sync_state \<Rightarrow> sync_state" where
  "bpmCalculation currentTime lastClockTimeForBPM s =
     (let elapsedSeconds = elapsedSecondsOf currentTime lastClockTimeForBPM
      in if elapsedSeconds > 0.2 \<and> elapsedSeconds < 3 then
           let calculatedBPM = 60 / elapsedSeconds;
               s1 = (if calculatedBPM \<ge> 20 \<and> calculatedBPM \<le> 300
                        \<and> \<bar>calculatedBPM - m_currentBPM s\<bar> > 0.5
                        \<and> \<not> m_bpmUpdateBlocked s
                     then (let s0 = s\<lparr>m_currentBPM := calculatedBPM\<rparr>
                           in if m_syncTimer s0 then updateSyncTimer s0 else s0)
                     else s)
           in s1\<lparr>s_lastClockTime := currentTime,
                 s_clockWindow := CLOCKS_PER_QUARTER_NOTE\<rparr>
         else s\<lparr>s_lastClockTime := currentTime, s_clockWindow := CLOCKS_PER_QUARTER_NOTE\<rparr>)"

definition bpmWindow :: "time_point \<Rightarrow> sync_state \<Rightarrow> sync_state" where
  "bpmWindow currentTime s =
     (let s1 = (if s_clockWindow s = 0
                then s\<lparr>s_lastClockTime := currentTime,
                       s_clockWindow := CLOCKS_PER_QUARTER_NOTE\<rparr>
                else s);
          s2 = s1\<lparr>s_clockWindow := s_clockWindow s1 - 1\<rparr>
      in if s_clockWindow s2 = 0 then bpmCalculation currentTime (s_lastClockTime s2) s2
         else s2)"

definition clockAdvance :: "time_point \<Rightarrow> sync_state \<Rightarrow> sync_state" where
  "clockAdvance currentTime s =
     (let s1 = s\<lparr>m_incomingClockCount := m_incomingClockCount s + 1,
                 m_lastClockMessageTime := currentTime\<rparr>
      in if m_isRunning s1 then
           let positionQuarterNotes =
                 real_of_int (m_clockCount s1 + 1) / real_of_int CLOCKS_PER_QUARTER_NOTE
           in s1\<lparr>m_clockCount := m_clockCount s1 + 1,
                 m_clocksSinceLastBoundary := m_clocksSinceLastBoundary s1 + 1,
                 m_currentPositionQuarterNotes := positionQuarterNotes,
                 m_currentPositionBeats := static_cast_int (positionQuarterNotes * 4)\<rparr>
         else s1)"

definition handleMIDIClock :: "time_point \<Rightarrow> sync_state \<Rightarrow> sync_state" where
  "handleMIDIClock currentTime s =
     (let isRunning = m_isRunning s;
          s1 = clockAdvance currentTime s;
          positionQuarterNotes = (if isRunning then m_currentPositionQuarterNotes s1 else 0);
          s2 = (if isRunning \<and> m_engine s1
                then checkAndEmitWholeNote positionQuarterNotes s1 else s1);
          s3 = bpmWindow currentTime s2
      in emit ClockTick s3)"

definition onSyncTick :: "sync_state \<Rightarrow> sync_state" where
  "onSyncTick s =
     (let isRunning = m_isRunning s;
          positionQuarterNotes =
            (if isRunning
             then real_of_int (m_clockCount s + 1) / real_of_int CLOCKS_PER_QUARTER_NOTE
             else 0);
          s1 = (if isRunning
                then s\<lparr>m_clockCount := m_clockCount s + 1,
                       m_currentPositionQuarterNotes := positionQuarterNotes,
                       m_currentPositionBeats := static_cast_int (positionQuarterNotes * 4)\<rparr>
                else s)
      in if \<not> isRunning \<or> \<not> m_engine s1 then s1
         else checkAndEmitWholeNote positionQuarterNotes
                (emit (SystemMessage MIDI_REALTIME_CLOCK) s1))"

definition updateBPMFromDAW :: "real \<Rightarrow> sync_state \<Rightarrow> sync_state" where
  "updateBPMFromDAW bpm s =
     (if bpm \<ge> 20 \<and> bpm \<le> 300 then
        (if \<not> m_bpmUpdateBlocked s \<and> \<bar>bpm - m_currentBPM s\<bar> > 0.1 then
           let s1 = s\<lparr>m_currentBPM := bpm\<rparr>;
               s2 = (if m_syncTimer s1 then updateSyncTimer s1 else s1)
           in emit (BpmChanged bpm) s2
         else s)
      else s)"

subsection \<open>Decoding the song position pointer\<close>

text \<open>
  \<^verbatim>\<open>MidiEngine::processQueuedMessages\<close>, case 0xF2: the two data bytes give the
  position in sixteenth notes and the position in quarter notes.
  \<^verbatim>\<open>MidiMasterWindow::onSyncControllerSongPositionPointer\<close> passes both to the
  controller unless both are zero.
\<close>

definition sppPosition :: "8 word \<Rightarrow> 8 word \<Rightarrow> int" where
  "sppPosition lsb msb = uint ((ucast lsb :: 16 word) OR push_bit 7 (ucast msb :: 16 word))"

definition sppQuarterNotes :: "int \<Rightarrow> real" where
  "sppQuarterNotes position = real_of_int position / 4"

definition onSyncControllerSongPositionPointer :: "int \<Rightarrow> real \<Rightarrow> sync_state \<Rightarrow> sync_state" where
  "onSyncControllerSongPositionPointer positionBeats positionQuarterNotes s =
     (if positionBeats > 0 \<or> positionQuarterNotes > 0
      then handleSongPositionPointer positionBeats positionQuarterNotes s else s)"

definition midiSongPositionPointerReceived :: "8 word \<Rightarrow> 8 word \<Rightarrow> sync_state \<Rightarrow> sync_state" where
  "midiSongPositionPointerReceived lsb msb s =
     (let position = sppPosition lsb msb
      in onSyncControllerSongPositionPointer position (sppQuarterNotes position) s)"

section \<open>Observing the outputs\<close>

fun isNoteOn :: "out_event \<Rightarrow> bool" where
  "isNoteOn (NoteOn channel note velocity) = True"
| "isNoteOn e = False"

fun isNoteOff :: "out_event \<Rightarrow> bool" where
  "isNoteOff (NoteOff channel note velocity) = True"
| "isNoteOff e = False"

fun isBpmChanged :: "out_event \<Rightarrow> bool" where
  "isBpmChanged (BpmChanged bpm) = True"
| "isBpmChanged e = False"

definition noteOnCount :: "out_event list \<Rightarrow> nat" where
  "noteOnCount es = length (filter isNoteOn es)"

definition noteOffCount :: "out_event list \<Rightarrow> nat" where
  "noteOffCount es = length (filter isNoteOff es)"

definition bpmChangedCount :: "out_event list \<Rightarrow> nat" where
  "bpmChangedCount es = length (filter isBpmChanged es)"

section \<open>Runs\<close>

text \<open>
  A run feeds inbound clock pulses to the controller; each pulse carries the instant at
  which \<^verbatim>\<open>handleMIDIClock\<close> reads the clock.
\<close>

fun clocks :: "time_point list \<Rightarrow> sync_state \<Rightarrow> sync_state" where
  "clocks [] s = s"
| "clocks (t # ts) s = clocks ts (handleMIDIClock t s)"


text \<open>Pulses spaced evenly, \<open>period\<close> nanoseconds apart.\<close>

definition metronome :: "int \<Rightarrow> nat \<Rightarrow> time_point list" where
  "metronome period n = map (\<lambda>i. int i * period) [1..<Suc n]"

definition ofBool :: "bool \<Rightarrow> int" where
  "ofBool b = (if b then 1 else 0)"

section \<open>The claims in the words of the specification\<close>

text \<open>
  The definitions of this section follow the sentences of the specification, not the
  program; the theorems compare them with the program.
\<close>

text \<open>\<open>advance_ticks = max(1.5, emission_advance_ms / ((60000 / bpm) / 24))\<close>.\<close>

definition spec_advance_ticks :: "real \<Rightarrow> real" where
  "spec_advance_ticks bpm = max 1.5 (EMISSION_ADVANCE_MS / ((60000 / bpm) / 24))"

text \<open>
  The note-on for \<open>next_boundary = floor(tick / 96) + 1\<close> is due when the boundary is
  beyond the last one emitted and the ticks left to it are within the advance window.
\<close>

definition spec_next_due :: "int \<Rightarrow> int \<Rightarrow> real \<Rightarrow> bool" where
  "spec_next_due tick last_emitted_boundary bpm =
     (tick div 96 + 1 > last_emitted_boundary
      \<and> real_of_int (96 - tick mod 96) \<le> spec_advance_ticks bpm)"

text \<open>The first downbeat: boundary 0, nothing emitted yet, less than a quarter note in.\<close>

definition spec_first_downbeat :: "int \<Rightarrow> int \<Rightarrow> bool" where
  "spec_first_downbeat tick last_emitted_boundary =
     (tick div 96 = 0 \<and> last_emitted_boundary < 0 \<and> real_of_int tick / 24 < 1)"





text \<open>The rebase of \<open>last_emitted_boundary\<close> on a backwards seek.\<close>

definition spec_rebase :: "real \<Rightarrow> int" where
  "spec_rebase quarter_notes =
     (let wn = \<lfloor>quarter_notes / 4\<rfloor>; frac = quarter_notes - real_of_int wn * 4
      in if frac < 2 then wn - 1 else wn)"

section \<open>Reachable states\<close>

text \<open>
  The states of a controller: the constructor, then any sequence of calls of its public
  functions and slots, of the timer's tick while the timer is active, and of the private
  slot \<^verbatim>\<open>updateBPMFromDAW\<close>.
\<close>

inductive reachable :: "sync_state \<Rightarrow> bool" where
  r_init: "reachable (SyncController engine now)"
| r_setBPM: "reachable s \<Longrightarrow> reachable (setBPM bpm s)"
| r_blockBPMUpdates: "reachable s \<Longrightarrow> reachable (blockBPMUpdates block s)"
| r_blockTransportSync: "reachable s \<Longrightarrow> reachable (blockTransportSync block s)"
| r_start: "reachable s \<Longrightarrow> reachable (start sendStartCommand now s)"
| r_stop: "reachable s \<Longrightarrow> reachable (stop sendStopCommand s)"
| r_handleDAWStart: "reachable s \<Longrightarrow> reachable (handleDAWStart now s)"
| r_handleDAWStop: "reachable s \<Longrightarrow> reachable (handleDAWStop s)"
| r_handleDAWContinue: "reachable s \<Longrightarrow> reachable (handleDAWContinue now s)"
| r_handleMIDIClock: "reachable s \<Longrightarrow> reachable (handleMIDIClock now s)"
| r_handleSongPositionPointer:
    "reachable s \<Longrightarrow> reachable (handleSongPositionPointer positionBeats positionQuarterNotes s)"
| r_onSyncTick: "reachable s \<Longrightarrow> timerActive s \<Longrightarrow> reachable (onSyncTick s)"
| r_updateBPMFromDAW: "reachable s \<Longrightarrow> reachable (updateBPMFromDAW bpm s)"

definition bpmInRange :: "sync_state \<Rightarrow> bool" where
  "bpmInRange s = (20 \<le> m_currentBPM s \<and> m_currentBPM s \<le> 300)"

text \<open>
  The invariant of a run driven by clock pulses after an inbound Start, on the tick counter
  \<open>n\<close>, the last emitted boundary and the note flag: before the first pulse nothing
  is emitted; afterwards the last emitted boundary is \<open>n div 96\<close>, or already the next
  one within the last eight ticks before it (always on the last tick), and the note sounds
  from its note-on up to the boundary it announces (on tick 1 for boundary 0).
\<close>

definition tickInv :: "sync_state \<Rightarrow> bool" where
  "tickInv s =
     (m_isRunning s \<and> m_engine s \<and> bpmInRange s \<and> 0 \<le> m_clockCount s
      \<and> (m_clockCount s = 0 \<longrightarrow> m_lastEmittedWholeNote s = - 1 \<and> \<not> m_noteOn s)
      \<and> (1 \<le> m_clockCount s \<longrightarrow>
            (m_lastEmittedWholeNote s = m_clockCount s div 96
             \<or> (m_lastEmittedWholeNote s = m_clockCount s div 96 + 1
                \<and> 88 \<le> m_clockCount s mod 96))
            \<and> (m_clockCount s mod 96 = 95 \<longrightarrow>
                  m_lastEmittedWholeNote s = m_clockCount s div 96 + 1)
            \<and> (m_noteOn s \<longleftrightarrow>
                  (m_clockCount s = 1 \<or> m_clockCount s mod 96 = 0
                   \<or> m_lastEmittedWholeNote s = m_clockCount s div 96 + 1))))"


section \<open>Setting the tempo\<close>

lemma setBPM_in_range:
  "20 \<le> bpm \<Longrightarrow> bpm \<le> 300 \<Longrightarrow>
   setBPM bpm s =
     emit (BpmChanged bpm)
       (if m_syncTimer s then updateSyncTimer (s\<lparr>m_currentBPM := bpm\<rparr>)
        else s\<lparr>m_currentBPM := bpm\<rparr>)"
  by (simp add: setBPM_def Let_def)

lemma updateSyncTimer_fields:
  "m_currentBPM (updateSyncTimer s) = m_currentBPM s"
  "m_syncTimer (updateSyncTimer s) = m_syncTimer s"
  "m_out (updateSyncTimer s) = m_out s"
  by (simp_all add: updateSyncTimer_def Let_def)




text \<open>
  C9 (amended). Every \<^verbatim>\<open>setBPM(x)\<close> with \<open>x\<close> in \<open>[20, 300]\<close> emits one
  \<^verbatim>\<open>bpmChanged(x)\<close>, whether or not the value differs from the current one: two
  consecutive calls with the same \<open>x\<close> emit two notifications in total. The second call
  changes nothing else: apart from the notification the state is the one after the first
  call.
\<close>

theorem C9_setBPM_twice_notifies_twice:
  "20 \<le> x \<and> x \<le> 300 \<longrightarrow>
     m_out (setBPM x (setBPM x s)) = m_out s @ [BpmChanged x, BpmChanged x]
     \<and> bpmChangedCount (m_out (setBPM x (setBPM x s))) = bpmChangedCount (m_out s) + 2
     \<and> (setBPM x (setBPM x s))\<lparr>m_out := m_out (setBPM x s)\<rparr> = setBPM x s"
  by (simp add: setBPM_def Let_def emit_def updateSyncTimer_def bpmChangedCount_def)

theorem C9_setBPM_twice_notifies_twice_witness:
  "(20::real) \<le> 125 \<and> (125::real) \<le> 300
   \<and> m_out (setBPM 125 (setBPM 125 (SyncController True 0)))
       = [BpmChanged 125, BpmChanged 125]
   \<and> bpmChangedCount (m_out (setBPM 125 (setBPM 125 (SyncController True 0)))) = 2"
  using C9_setBPM_twice_notifies_twice [of 125 "SyncController True 0"]
  by (simp add: SyncController_def bpmChangedCount_def)

text \<open>
  The claim as stated fails: two consecutive \<^verbatim>\<open>setBPM(125)\<close> on a fresh controller
  emit two notifications, not one.
\<close>

theorem C9_setBPM_twice_counterexample:
  "bpmChangedCount (m_out (setBPM 125 (setBPM 125 (SyncController True 0)))) \<noteq> 1"
  by (simp add: setBPM_def SyncController_def emit_def bpmChangedCount_def)

text \<open>
  C10. For every \<open>x\<close> below 20 or above 300, \<^verbatim>\<open>setBPM(x)\<close> returns the state it
  was given: no field changes (the current BPM and the timer interval included) and no
  notification is appended to the outputs.
\<close>

theorem C10_setBPM_out_of_range_ignored:
  "x < 20 \<or> x > 300 \<Longrightarrow> setBPM x s = s"
  by (auto simp: setBPM_def)

theorem C10_setBPM_out_of_range_ignored_witness:
  "((10::real) < 20 \<or> (10::real) > 300)
   \<and> setBPM 10 (start True 5 (SyncController True 0)) = start True 5 (SyncController True 0)
   \<and> setBPM 301 (SyncController True 0) = SyncController True 0"
  using C10_setBPM_out_of_range_ignored [of 10 "start True 5 (SyncController True 0)"]
    C10_setBPM_out_of_range_ignored [of 301 "SyncController True 0"]
  by simp

section \<open>The scheduler on a tick\<close>

lemmas scheduler_defs = checkAndEmitWholeNote_def noteOnDecision_def noteOffDecision_def
  emitNote_def emit_def Let_def

lemmas eval_defs = midiSongPositionPointerReceived_def onSyncControllerSongPositionPointer_def
  sppPosition_def sppQuarterNotes_def handleSongPositionPointer_def sppUpdate_def
  checkAndEmitWholeNote_def noteOnDecision_def noteOffDecision_def emitNote_def
  shouldEmitOf_def boundaryToEmitOf_def isFirstDownbeatOf_def noteShouldBeOffOf_def
  currentBoundaryOf_def positionInBoundaryOf_def ticksToNextBoundaryOf_def
  emissionAdvanceTicksOf_def EMISSION_ADVANCE_MS_def CLOCKS_PER_QUARTER_NOTE_def
  handleDAWStart_def SyncController_def emit_def static_cast_int_def Let_def

lemma currentBoundaryOf_tick: "currentBoundaryOf (real_of_int t / 24) = t div 96"
proof -
  have "real_of_int t / 24 / 4 = real_of_int t / real_of_int 96" by simp
  then show ?thesis
    unfolding currentBoundaryOf_def by (simp only: floor_divide_of_int_eq)
qed

lemma positionInBoundaryOf_tick:
  "positionInBoundaryOf (real_of_int t / 24) = real_of_int (t mod 96) / 24"
proof -
  have "t = 96 * (t div 96) + t mod 96" by simp
  then have "real_of_int t = 96 * real_of_int (t div 96) + real_of_int (t mod 96)"
    by (metis of_int_add of_int_mult of_int_numeral)
  then have "real_of_int t / 24 - real_of_int (t div 96) * 4 = real_of_int (t mod 96) / 24"
    by linarith
  then show ?thesis
    by (simp only: positionInBoundaryOf_def currentBoundaryOf_tick)
qed

lemma ticksToNextBoundaryOf_tick:
  "ticksToNextBoundaryOf (real_of_int t / 24) = real_of_int (96 - t mod 96)"
  by (simp add: ticksToNextBoundaryOf_def positionInBoundaryOf_tick CLOCKS_PER_QUARTER_NOTE_def)

lemma emissionAdvanceTicksOf_lower: "3 / 2 \<le> emissionAdvanceTicksOf bpm"
  by (auto simp add: emissionAdvanceTicksOf_def Let_def EMISSION_ADVANCE_MS_def
      CLOCKS_PER_QUARTER_NOTE_def field_simps)

lemma emissionAdvanceTicksOf_upper: "emissionAdvanceTicksOf bpm \<le> 42 / 5"
  by (auto simp add: emissionAdvanceTicksOf_def Let_def EMISSION_ADVANCE_MS_def
      CLOCKS_PER_QUARTER_NOTE_def field_simps)

lemma noteShouldBeOffOf_noteOnDecision [simp]:
  "noteShouldBeOffOf (noteOnDecision pq s) pq = noteShouldBeOffOf s pq"
  by (simp add: noteShouldBeOffOf_def noteOnDecision_def Let_def)

lemma checkAndEmitWholeNote_lastEmitted:
  "m_lastEmittedWholeNote (checkAndEmitWholeNote pq s) =
     (if shouldEmitOf s pq then boundaryToEmitOf s pq else m_lastEmittedWholeNote s)"
  by (simp add: scheduler_defs)

lemma checkAndEmitWholeNote_clocksSince:
  "m_clocksSinceLastBoundary (checkAndEmitWholeNote pq s) =
     (if shouldEmitOf s pq then 0 else m_clocksSinceLastBoundary s)"
  by (simp add: scheduler_defs)

lemma checkAndEmitWholeNote_noteOn:
  "m_noteOn (checkAndEmitWholeNote pq s) =
     ((shouldEmitOf s pq \<and> m_engine s) \<or> (m_noteOn s \<and> \<not> noteShouldBeOffOf s pq))"
  by (simp add: scheduler_defs noteShouldBeOffOf_def)

lemma checkAndEmitWholeNote_out:
  "m_out (checkAndEmitWholeNote pq s) =
     m_out s
     @ (if noteShouldBeOffOf s pq \<and> m_engine s
        then [NoteOff (m_midiChannel s) (m_midiNote s) 0] else [])
     @ (if shouldEmitOf s pq \<and> m_engine s
        then [NoteOn (m_midiChannel s) (m_midiNote s) (m_midiVelocity s),
              BeatSent (boundaryToEmitOf s pq * 4),
              PositionChanged (m_currentPositionBeats s) (m_currentPositionQuarterNotes s)]
        else [])"
  by (simp add: scheduler_defs noteShouldBeOffOf_def)

lemma checkAndEmitWholeNote_frame:
  "m_currentBPM (checkAndEmitWholeNote pq s) = m_currentBPM s"
  "m_clockCount (checkAndEmitWholeNote pq s) = m_clockCount s"
  "m_isRunning (checkAndEmitWholeNote pq s) = m_isRunning s"
  "m_engine (checkAndEmitWholeNote pq s) = m_engine s"
  "m_syncTimer (checkAndEmitWholeNote pq s) = m_syncTimer s"
  "m_bpmUpdateBlocked (checkAndEmitWholeNote pq s) = m_bpmUpdateBlocked s"
  "m_transportSyncBlocked (checkAndEmitWholeNote pq s) = m_transportSyncBlocked s"
  "s_clockWindow (checkAndEmitWholeNote pq s) = s_clockWindow s"
  "s_lastClockTime (checkAndEmitWholeNote pq s) = s_lastClockTime s"
  "m_currentPositionQuarterNotes (checkAndEmitWholeNote pq s) = m_currentPositionQuarterNotes s"
  "m_currentPositionBeats (checkAndEmitWholeNote pq s) = m_currentPositionBeats s"
  "m_midiChannel (checkAndEmitWholeNote pq s) = m_midiChannel s"
  "m_midiNote (checkAndEmitWholeNote pq s) = m_midiNote s"
  "m_midiVelocity (checkAndEmitWholeNote pq s) = m_midiVelocity s"
  "timerActive (checkAndEmitWholeNote pq s) = timerActive s"
  by (simp_all add: scheduler_defs)

lemma bpmWindow_frame:
  "m_lastEmittedWholeNote (bpmWindow now s) = m_lastEmittedWholeNote s"
  "m_noteOn (bpmWindow now s) = m_noteOn s"
  "m_clocksSinceLastBoundary (bpmWindow now s) = m_clocksSinceLastBoundary s"
  "m_out (bpmWindow now s) = m_out s"
  "m_clockCount (bpmWindow now s) = m_clockCount s"
  "m_isRunning (bpmWindow now s) = m_isRunning s"
  "m_engine (bpmWindow now s) = m_engine s"
  "m_syncTimer (bpmWindow now s) = m_syncTimer s"
  "m_bpmUpdateBlocked (bpmWindow now s) = m_bpmUpdateBlocked s"
  "m_transportSyncBlocked (bpmWindow now s) = m_transportSyncBlocked s"
  "m_currentPositionQuarterNotes (bpmWindow now s) = m_currentPositionQuarterNotes s"
  "m_currentPositionBeats (bpmWindow now s) = m_currentPositionBeats s"
  "m_midiChannel (bpmWindow now s) = m_midiChannel s"
  "m_midiNote (bpmWindow now s) = m_midiNote s"
  "m_midiVelocity (bpmWindow now s) = m_midiVelocity s"
  "timerActive (bpmWindow now s) = timerActive s"
  by (simp_all add: bpmWindow_def bpmCalculation_def updateSyncTimer_def Let_def)

lemma clockAdvance_running:
  assumes "m_isRunning s"
  shows "m_clockCount (clockAdvance now s) = m_clockCount s + 1"
    and "m_currentPositionQuarterNotes (clockAdvance now s) = real_of_int (m_clockCount s + 1) / 24"
    and "m_currentPositionBeats (clockAdvance now s)
           = static_cast_int (real_of_int (m_clockCount s + 1) / 24 * 4)"
    and "m_clocksSinceLastBoundary (clockAdvance now s) = m_clocksSinceLastBoundary s + 1"
  using assms by (simp_all add: clockAdvance_def Let_def CLOCKS_PER_QUARTER_NOTE_def)

lemma clockAdvance_frame:
  "m_lastEmittedWholeNote (clockAdvance now s) = m_lastEmittedWholeNote s"
  "m_noteOn (clockAdvance now s) = m_noteOn s"
  "m_out (clockAdvance now s) = m_out s"
  "m_isRunning (clockAdvance now s) = m_isRunning s"
  "m_engine (clockAdvance now s) = m_engine s"
  "m_syncTimer (clockAdvance now s) = m_syncTimer s"
  "m_currentBPM (clockAdvance now s) = m_currentBPM s"
  "m_bpmUpdateBlocked (clockAdvance now s) = m_bpmUpdateBlocked s"
  "m_transportSyncBlocked (clockAdvance now s) = m_transportSyncBlocked s"
  "s_clockWindow (clockAdvance now s) = s_clockWindow s"
  "s_lastClockTime (clockAdvance now s) = s_lastClockTime s"
  "m_midiChannel (clockAdvance now s) = m_midiChannel s"
  "m_midiNote (clockAdvance now s) = m_midiNote s"
  "m_midiVelocity (clockAdvance now s) = m_midiVelocity s"
  "timerActive (clockAdvance now s) = timerActive s"
  by (simp_all add: clockAdvance_def Let_def)

lemma handleMIDIClock_running:
  assumes "m_isRunning s" "m_engine s"
  shows "handleMIDIClock now s =
           emit ClockTick (bpmWindow now
             (checkAndEmitWholeNote (real_of_int (m_clockCount s + 1) / 24)
                (clockAdvance now s)))"
  using assms
  by (simp add: handleMIDIClock_def Let_def clockAdvance_frame clockAdvance_running)

lemma handleMIDIClock_frame:
  "m_isRunning (handleMIDIClock now s) = m_isRunning s"
  "m_engine (handleMIDIClock now s) = m_engine s"
  "m_transportSyncBlocked (handleMIDIClock now s) = m_transportSyncBlocked s"
  "m_midiChannel (handleMIDIClock now s) = m_midiChannel s"
  "m_midiNote (handleMIDIClock now s) = m_midiNote s"
  "m_midiVelocity (handleMIDIClock now s) = m_midiVelocity s"
  "m_syncTimer (handleMIDIClock now s) = m_syncTimer s"
  "timerActive (handleMIDIClock now s) = timerActive s"
  by (simp_all add: handleMIDIClock_def Let_def emit_def bpmWindow_frame
      checkAndEmitWholeNote_frame clockAdvance_frame)

subsection \<open>The stored BPM stays in range\<close>

lemma bpmWindow_bpmInRange: "bpmInRange s \<Longrightarrow> bpmInRange (bpmWindow now s)"
  by (simp add: bpmInRange_def bpmWindow_def bpmCalculation_def updateSyncTimer_def Let_def)

lemma bpmInRange_emit: "bpmInRange (emit e s) = bpmInRange s"
  by (simp add: bpmInRange_def emit_def)

lemma bpmInRange_checkAndEmitWholeNote: "bpmInRange (checkAndEmitWholeNote pq s) = bpmInRange s"
  by (simp add: bpmInRange_def checkAndEmitWholeNote_frame)

lemma bpmInRange_clockAdvance: "bpmInRange (clockAdvance now s) = bpmInRange s"
  by (simp add: bpmInRange_def clockAdvance_frame)

lemma handleMIDIClock_bpmInRange: "bpmInRange s \<Longrightarrow> bpmInRange (handleMIDIClock now s)"
  by (simp add: handleMIDIClock_def Let_def bpmWindow_bpmInRange bpmInRange_emit
      bpmInRange_checkAndEmitWholeNote bpmInRange_clockAdvance)

lemma reachable_bpmInRange: "reachable s \<Longrightarrow> bpmInRange s"
proof (induction rule: reachable.induct)
  case (r_init engine now)
  show ?case by (simp add: bpmInRange_def SyncController_def)
next
  case (r_setBPM s bpm)
  then show ?case
    by (simp add: bpmInRange_def setBPM_def Let_def emit_def updateSyncTimer_def)
next
  case (r_blockBPMUpdates s block)
  then show ?case by (simp add: bpmInRange_def blockBPMUpdates_def)
next
  case (r_blockTransportSync s block)
  then show ?case by (simp add: bpmInRange_def blockTransportSync_def)
next
  case (r_start s sendStartCommand now)
  then show ?case
    by (simp add: bpmInRange_def start_def Let_def emit_def updateSyncTimer_def)
next
  case (r_stop s sendStopCommand)
  then show ?case by (simp add: bpmInRange_def stop_def Let_def emit_def)
next
  case (r_handleDAWStart s now)
  then show ?case by (simp add: bpmInRange_def handleDAWStart_def Let_def emit_def)
next
  case (r_handleDAWStop s)
  then show ?case
    by (simp add: bpmInRange_def handleDAWStop_def stop_def Let_def emit_def)
next
  case (r_handleDAWContinue s now)
  then show ?case by (simp add: bpmInRange_def handleDAWContinue_def Let_def emit_def)
next
  case (r_handleMIDIClock s now)
  then show ?case
    by (simp add: handleMIDIClock_def Let_def bpmWindow_bpmInRange bpmInRange_emit
        bpmInRange_checkAndEmitWholeNote bpmInRange_clockAdvance)
next
  case (r_handleSongPositionPointer s positionBeats positionQuarterNotes)
  then show ?case
    by (simp add: bpmInRange_def handleSongPositionPointer_def sppUpdate_def Let_def emit_def
        checkAndEmitWholeNote_frame)
next
  case (r_onSyncTick s)
  then show ?case
    by (simp add: bpmInRange_def onSyncTick_def Let_def emit_def checkAndEmitWholeNote_frame)
next
  case (r_updateBPMFromDAW s bpm)
  then show ?case
    by (simp add: bpmInRange_def updateBPMFromDAW_def Let_def emit_def updateSyncTimer_def)
qed

subsection \<open>The decisions in whole ticks\<close>

lemma spec_advance_ticks_eq:
  "20 \<le> bpm \<Longrightarrow> bpm \<le> 300 \<Longrightarrow> emissionAdvanceTicksOf bpm = spec_advance_ticks bpm"
  by (simp add: emissionAdvanceTicksOf_def spec_advance_ticks_def Let_def
      CLOCKS_PER_QUARTER_NOTE_def EMISSION_ADVANCE_MS_def max_def)

lemma spec_advance_ticks_bounds:
  assumes "20 \<le> bpm" "bpm \<le> 300"
  shows "3 / 2 \<le> spec_advance_ticks bpm" and "spec_advance_ticks bpm \<le> 42 / 5"
  using emissionAdvanceTicksOf_lower [of bpm] emissionAdvanceTicksOf_upper [of bpm] assms
  by (simp_all add: spec_advance_ticks_eq)

lemma isFirstDownbeatOf_tick:
  "isFirstDownbeatOf s (real_of_int t / 24) = spec_first_downbeat t (m_lastEmittedWholeNote s)"
  by (simp add: isFirstDownbeatOf_def spec_first_downbeat_def currentBoundaryOf_tick)

lemma shouldEmitOf_tick:
  "bpmInRange s \<Longrightarrow>
   shouldEmitOf s (real_of_int t / 24) =
     (spec_first_downbeat t (m_lastEmittedWholeNote s)
      \<or> spec_next_due t (m_lastEmittedWholeNote s) (m_currentBPM s))"
  by (simp add: shouldEmitOf_def isFirstDownbeatOf_tick spec_next_due_def
      currentBoundaryOf_tick ticksToNextBoundaryOf_tick spec_advance_ticks_eq bpmInRange_def)

lemma boundaryToEmitOf_tick:
  "boundaryToEmitOf s (real_of_int t / 24) =
     (if spec_first_downbeat t (m_lastEmittedWholeNote s) then 0 else t div 96 + 1)"
  by (auto simp add: boundaryToEmitOf_def isFirstDownbeatOf_tick currentBoundaryOf_tick
      spec_first_downbeat_def)

lemma noteShouldBeOffOf_tick:
  "noteShouldBeOffOf s (real_of_int t / 24) = (m_noteOn s \<and> 0 < t mod 96 \<and> t mod 96 < 10)"
proof -
  have "(real_of_int (t mod 96) / 24 < 4 / 10) = (t mod 96 < 10)"
  proof
    assume "real_of_int (t mod 96) / 24 < 4 / 10"
    then have "real_of_int (t mod 96) < real_of_int 10" by simp
    then show "t mod 96 < 10" by (simp only: of_int_less_iff)
  next
    assume "t mod 96 < 10"
    then have "t mod 96 \<le> 9" by simp
    then have "real_of_int (t mod 96) \<le> 9" by (metis of_int_le_iff of_int_numeral)
    then show "real_of_int (t mod 96) / 24 < 4 / 10" by simp
  qed
  then show ?thesis
    by (simp add: noteShouldBeOffOf_def positionInBoundaryOf_tick)
qed

lemma spec_first_downbeat_iff:
  "spec_first_downbeat t l = (0 \<le> t \<and> t < 24 \<and> l < 0)"
proof -
  have "(real_of_int t / 24 < 1) = (t < 24)"
  proof -
    have "(real_of_int t / 24 < 1) = (real_of_int t < real_of_int 24)" by simp
    then show ?thesis by (simp only: of_int_less_iff)
  qed
  moreover have "(t div 96 = 0 \<and> t < 24) = (0 \<le> t \<and> t < 24)"
    by (auto simp add: div_eq_0_iff)
  ultimately show ?thesis by (auto simp add: spec_first_downbeat_def)
qed

lemma spec_next_due_window:
  assumes "20 \<le> bpm" "bpm \<le> 300" "spec_next_due t l bpm"
  shows "88 \<le> t mod 96" and "l < t div 96 + 1"
proof -
  from assms(3) have c: "real_of_int (96 - t mod 96) \<le> spec_advance_ticks bpm"
    and l: "l < t div 96 + 1"
    by (simp_all add: spec_next_due_def)
  from c spec_advance_ticks_bounds(2) [OF assms(1,2)]
  have "real_of_int (96 - t mod 96) < real_of_int 9" by simp
  then have "96 - t mod 96 < 9" by (simp only: of_int_less_iff)
  then show "88 \<le> t mod 96" by simp
  show "l < t div 96 + 1" by (rule l)
qed

lemma spec_next_due_last_tick:
  assumes "20 \<le> bpm" "bpm \<le> 300" "t mod 96 = 95" "l < t div 96 + 1"
  shows "spec_next_due t l bpm"
  using spec_advance_ticks_bounds(1) [OF assms(1,2)] assms(3,4)
  by (simp add: spec_next_due_def)


lemma handleMIDIClock_tick:
  assumes "m_isRunning s" "m_engine s" "bpmInRange s"
  shows "m_clockCount (handleMIDIClock now s) = m_clockCount s + 1"
    and "m_lastEmittedWholeNote (handleMIDIClock now s) =
           (if spec_first_downbeat (m_clockCount s + 1) (m_lastEmittedWholeNote s) then 0
            else if spec_next_due (m_clockCount s + 1) (m_lastEmittedWholeNote s) (m_currentBPM s)
            then (m_clockCount s + 1) div 96 + 1
            else m_lastEmittedWholeNote s)"
    and "m_noteOn (handleMIDIClock now s) =
           (spec_first_downbeat (m_clockCount s + 1) (m_lastEmittedWholeNote s)
            \<or> spec_next_due (m_clockCount s + 1) (m_lastEmittedWholeNote s) (m_currentBPM s)
            \<or> (m_noteOn s
               \<and> \<not> (0 < (m_clockCount s + 1) mod 96 \<and> (m_clockCount s + 1) mod 96 < 10)))"
    and "m_clocksSinceLastBoundary (handleMIDIClock now s) =
           (if spec_first_downbeat (m_clockCount s + 1) (m_lastEmittedWholeNote s)
               \<or> spec_next_due (m_clockCount s + 1) (m_lastEmittedWholeNote s) (m_currentBPM s)
            then 0 else m_clocksSinceLastBoundary s + 1)"
    and "m_out (handleMIDIClock now s) =
           m_out s
           @ (if m_noteOn s \<and> 0 < (m_clockCount s + 1) mod 96 \<and> (m_clockCount s + 1) mod 96 < 10
              then [NoteOff (m_midiChannel s) (m_midiNote s) 0] else [])
           @ (if spec_first_downbeat (m_clockCount s + 1) (m_lastEmittedWholeNote s)
                 \<or> spec_next_due (m_clockCount s + 1) (m_lastEmittedWholeNote s) (m_currentBPM s)
              then [NoteOn (m_midiChannel s) (m_midiNote s) (m_midiVelocity s),
                    BeatSent ((if spec_first_downbeat (m_clockCount s + 1) (m_lastEmittedWholeNote s)
                               then 0 else (m_clockCount s + 1) div 96 + 1) * 4),
                    PositionChanged
                      (static_cast_int (real_of_int (m_clockCount s + 1) / 24 * 4))
                      (real_of_int (m_clockCount s + 1) / 24)]
              else [])
           @ [ClockTick]"
proof -
  let ?c = "clockAdvance now s"
  have inr: "bpmInRange ?c" using assms(3) by (simp add: bpmInRange_clockAdvance)
  note se = shouldEmitOf_tick [OF inr, of "m_clockCount s + 1"]
  note [simp] = handleMIDIClock_running [OF assms(1,2)] emit_def bpmWindow_frame
    checkAndEmitWholeNote_frame clockAdvance_frame clockAdvance_running [OF assms(1)]
  note [simp del] = of_int_add
  show "m_clockCount (handleMIDIClock now s) = m_clockCount s + 1" by simp
  show "m_lastEmittedWholeNote (handleMIDIClock now s) =
           (if spec_first_downbeat (m_clockCount s + 1) (m_lastEmittedWholeNote s) then 0
            else if spec_next_due (m_clockCount s + 1) (m_lastEmittedWholeNote s) (m_currentBPM s)
            then (m_clockCount s + 1) div 96 + 1
            else m_lastEmittedWholeNote s)"
    by (simp add: checkAndEmitWholeNote_lastEmitted se boundaryToEmitOf_tick)
  show "m_noteOn (handleMIDIClock now s) =
           (spec_first_downbeat (m_clockCount s + 1) (m_lastEmittedWholeNote s)
            \<or> spec_next_due (m_clockCount s + 1) (m_lastEmittedWholeNote s) (m_currentBPM s)
            \<or> (m_noteOn s
               \<and> \<not> (0 < (m_clockCount s + 1) mod 96 \<and> (m_clockCount s + 1) mod 96 < 10)))"
    using assms(2) by (simp add: checkAndEmitWholeNote_noteOn se noteShouldBeOffOf_tick) blast
  show "m_clocksSinceLastBoundary (handleMIDIClock now s) =
           (if spec_first_downbeat (m_clockCount s + 1) (m_lastEmittedWholeNote s)
               \<or> spec_next_due (m_clockCount s + 1) (m_lastEmittedWholeNote s) (m_currentBPM s)
            then 0 else m_clocksSinceLastBoundary s + 1)"
    by (simp add: checkAndEmitWholeNote_clocksSince se)
  show "m_out (handleMIDIClock now s) =
           m_out s
           @ (if m_noteOn s \<and> 0 < (m_clockCount s + 1) mod 96 \<and> (m_clockCount s + 1) mod 96 < 10
              then [NoteOff (m_midiChannel s) (m_midiNote s) 0] else [])
           @ (if spec_first_downbeat (m_clockCount s + 1) (m_lastEmittedWholeNote s)
                 \<or> spec_next_due (m_clockCount s + 1) (m_lastEmittedWholeNote s) (m_currentBPM s)
              then [NoteOn (m_midiChannel s) (m_midiNote s) (m_midiVelocity s),
                    BeatSent ((if spec_first_downbeat (m_clockCount s + 1) (m_lastEmittedWholeNote s)
                               then 0 else (m_clockCount s + 1) div 96 + 1) * 4),
                    PositionChanged
                      (static_cast_int (real_of_int (m_clockCount s + 1) / 24 * 4))
                      (real_of_int (m_clockCount s + 1) / 24)]
              else [])
           @ [ClockTick]"
    using assms(2)
    by (simp add: checkAndEmitWholeNote_out se noteShouldBeOffOf_tick boundaryToEmitOf_tick)
qed



subsection \<open>The note-on decision\<close>



section \<open>Runs of clock pulses\<close>

lemma succ_div_mod_96:
  fixes n :: int
  shows "n mod 96 = 95 \<Longrightarrow> (n + 1) div 96 = n div 96 + 1 \<and> (n + 1) mod 96 = 0"
    and "n mod 96 \<noteq> 95 \<Longrightarrow> (n + 1) div 96 = n div 96 \<and> (n + 1) mod 96 = n mod 96 + 1"
proof -
  define d where "d = n div 96"
  define m where "m = n mod 96"
  have n: "n = 96 * d + m" by (simp only: d_def m_def mult_div_mod_eq)
  have r: "0 \<le> m" "m < 96" by (simp_all add: m_def)
  have "(n + 1) div 96 = d + 1 \<and> (n + 1) mod 96 = 0" if w: "m = 95"
  proof -
    from n w have e: "n + 1 = 96 * (d + 1) + 0" by simp
    have "(n + 1) div 96 = d + 1" by (rule int_div_pos_eq [OF e]) simp_all
    moreover have "(n + 1) mod 96 = 0" by (rule int_mod_pos_eq [OF e]) simp_all
    ultimately show ?thesis by simp
  qed
  then show "n mod 96 = 95 \<Longrightarrow> (n + 1) div 96 = n div 96 + 1 \<and> (n + 1) mod 96 = 0"
    unfolding d_def m_def by simp
  have "(n + 1) div 96 = d \<and> (n + 1) mod 96 = m + 1" if w: "m \<noteq> 95"
  proof -
    from w r have b: "0 \<le> m + 1" "m + 1 < 96" by simp_all
    from n have e: "n + 1 = 96 * d + (m + 1)" by simp
    have "(n + 1) div 96 = d" by (rule int_div_pos_eq [OF e b])
    moreover have "(n + 1) mod 96 = m + 1" by (rule int_mod_pos_eq [OF e b])
    ultimately show ?thesis by simp
  qed
  then show "n mod 96 \<noteq> 95 \<Longrightarrow> (n + 1) div 96 = n div 96 \<and> (n + 1) mod 96 = n mod 96 + 1"
    unfolding d_def m_def by simp
qed

lemma step_qr:
  fixes n l q r q' r' :: int and noteOn first nextDue :: bool
  assumes r: "0 \<le> r" "r < 96" and q: "0 \<le> q"
    and nq: "n = 96 * q + r"
    and succ: "(r = 95 \<longrightarrow> q' = q + 1 \<and> r' = 0) \<and> (r \<noteq> 95 \<longrightarrow> q' = q \<and> r' = r + 1)"
    and z: "n = 0 \<longrightarrow> l = - 1 \<and> \<not> noteOn"
    and p1: "1 \<le> n \<longrightarrow> (l = q \<or> (l = q + 1 \<and> 88 \<le> r))"
    and p2: "1 \<le> n \<longrightarrow> (r = 95 \<longrightarrow> l = q + 1)"
    and p3: "1 \<le> n \<longrightarrow> (noteOn \<longleftrightarrow> (n = 1 \<or> r = 0 \<or> l = q + 1))"
    and f: "first = (0 \<le> n + 1 \<and> n + 1 < 24 \<and> l < 0)"
    and d1: "nextDue \<longrightarrow> 88 \<le> r' \<and> l < q' + 1"
    and d2: "r' = 95 \<and> l < q' + 1 \<longrightarrow> nextDue"
    and l': "l' = (if first then 0 else if nextDue then q' + 1 else l)"
    and on': "noteOn' = (first \<or> nextDue \<or> (noteOn \<and> \<not> (0 < r' \<and> r' < 10)))"
  shows "(l' = q' \<or> (l' = q' + 1 \<and> 88 \<le> r'))
    \<and> (r' = 95 \<longrightarrow> l' = q' + 1)
    \<and> (noteOn' \<longleftrightarrow> (n + 1 = 1 \<or> r' = 0 \<or> l' = q' + 1))
    \<and> (first \<or> nextDue \<longrightarrow> l' = l + 1 \<and> \<not> noteOn)
    \<and> (\<not> (first \<or> nextDue) \<longrightarrow> l' = l)
    \<and> (first \<longleftrightarrow> n = 0)
    \<and> (noteOn \<and> 0 < r' \<and> r' < 10 \<longrightarrow> \<not> (first \<or> nextDue))"
proof -
  have n0: "0 \<le> n" using r q nq by simp
  have fz: "first \<longleftrightarrow> n = 0"
  proof (cases "n = 0")
    case True
    with z f show ?thesis by simp
  next
    case False
    with n0 have "1 \<le> n" by simp
    with p1 q have "0 \<le> l" by arith
    with f False show ?thesis by simp
  qed
  consider (zero) "n = 0" | (wrap) "1 \<le> n" "r = 95" | (mid) "1 \<le> n" "r \<noteq> 95"
    using n0 by linarith
  then show ?thesis
  proof cases
    case zero
    with nq r q have qr: "q = 0" "r = 0" by arith+
    with succ have s: "q' = 0" "r' = 1" by simp_all
    from zero fz have ft: first by simp
    from zero z have lz: "l = - 1" "\<not> noteOn" by simp_all
    from d1 s have nd: "\<not> nextDue" by simp
    from l' ft have "l' = 0" by simp
    moreover from on' ft have noteOn' by simp
    ultimately show ?thesis using s ft lz nd zero by simp
  next
    case wrap
    with fz have nf: "\<not> first" by simp
    from wrap succ have s: "q' = q + 1" "r' = 0" by simp_all
    with d1 have nd: "\<not> nextDue" by simp
    from p2 wrap have lq: "l = q + 1" by simp
    from p3 wrap lq have on: noteOn by simp
    from l' nf nd have ll: "l' = l" by simp
    from on' nf nd on s have noteOn' by simp
    then show ?thesis using ll lq s nf nd fz wrap by simp
  next
    case mid
    with fz have nf: "\<not> first" by simp
    from mid succ have s: "q' = q" "r' = r + 1" by simp_all
    from p1 mid have c: "l = q \<or> (l = q + 1 \<and> 88 \<le> r)" by simp
    from p3 mid have pn: "noteOn \<longleftrightarrow> (n = 1 \<or> r = 0 \<or> l = q + 1)" by simp
    have n1: "n = 1 \<longrightarrow> r = 1" using nq r q by arith
    show ?thesis
    proof (cases nextDue)
      case True
      with d1 s have w: "87 \<le> r" "l < q + 1" by simp_all
      with c have le: "l = q" by arith
      from n1 w have "n \<noteq> 1" by arith
      with pn le w have off: "\<not> noteOn" by simp
      from l' nf True s le have ll: "l' = l + 1" by simp
      from on' True have noteOn' by simp
      then show ?thesis using ll le s w off True nf fz mid by simp
    next
      case False
      with nf l' have ll: "l' = l" by simp
      from False d2 s have nl: "r = 94 \<longrightarrow> \<not> l < q + 1" by simp
      have "(0 < r' \<and> r' < 10) = (r < 9)" using s r by arith
      with on' nf False have on_eq: "noteOn' = (noteOn \<and> 9 \<le> r)"
        by (simp add: not_less)
      have a1: "l' = q' \<or> (l' = q' + 1 \<and> 88 \<le> r')" using c ll s by arith
      have a2: "r' = 95 \<longrightarrow> l' = q' + 1" using c nl ll s by arith
      have a3: "noteOn' \<longleftrightarrow> (n + 1 = 1 \<or> r' = 0 \<or> l' = q' + 1)"
      proof (cases "l = q + 1")
        case True
        with c have "88 \<le> r" by simp
        with True pn on_eq ll s show ?thesis by simp
      next
        case False
        with pn have "noteOn \<longleftrightarrow> (n = 1 \<or> r = 0)" by simp
        with n1 have "noteOn \<longrightarrow> r < 9" by arith
        with on_eq have "\<not> noteOn'" by arith
        with False ll s mid r show ?thesis by simp
      qed
      from a1 a2 a3 ll False nf fz show ?thesis by simp
    qed
  qed
qed

lemma step_abstract:
  fixes n l :: int and noteOn first nextDue :: bool
  assumes n0: "0 \<le> n"
    and z: "n = 0 \<longrightarrow> l = - 1 \<and> \<not> noteOn"
    and p1: "1 \<le> n \<longrightarrow> (l = n div 96 \<or> (l = n div 96 + 1 \<and> 88 \<le> n mod 96))"
    and p2: "1 \<le> n \<longrightarrow> (n mod 96 = 95 \<longrightarrow> l = n div 96 + 1)"
    and p3: "1 \<le> n \<longrightarrow> (noteOn \<longleftrightarrow> (n = 1 \<or> n mod 96 = 0 \<or> l = n div 96 + 1))"
    and f: "first = (0 \<le> n + 1 \<and> n + 1 < 24 \<and> l < 0)"
    and d1: "nextDue \<longrightarrow> 88 \<le> (n + 1) mod 96 \<and> l < (n + 1) div 96 + 1"
    and d2: "(n + 1) mod 96 = 95 \<and> l < (n + 1) div 96 + 1 \<longrightarrow> nextDue"
    and l': "l' = (if first then 0 else if nextDue then (n + 1) div 96 + 1 else l)"
    and on': "noteOn' = (first \<or> nextDue
                \<or> (noteOn \<and> \<not> (0 < (n + 1) mod 96 \<and> (n + 1) mod 96 < 10)))"
  shows "(l' = (n + 1) div 96 \<or> (l' = (n + 1) div 96 + 1 \<and> 88 \<le> (n + 1) mod 96))
    \<and> ((n + 1) mod 96 = 95 \<longrightarrow> l' = (n + 1) div 96 + 1)
    \<and> (noteOn' \<longleftrightarrow> (n + 1 = 1 \<or> (n + 1) mod 96 = 0 \<or> l' = (n + 1) div 96 + 1))
    \<and> (first \<or> nextDue \<longrightarrow> l' = l + 1 \<and> \<not> noteOn)
    \<and> (\<not> (first \<or> nextDue) \<longrightarrow> l' = l)
    \<and> (first \<longleftrightarrow> n = 0)
    \<and> (noteOn \<and> 0 < (n + 1) mod 96 \<and> (n + 1) mod 96 < 10 \<longrightarrow> \<not> (first \<or> nextDue))"
proof -
  have r: "0 \<le> n mod 96" "n mod 96 < 96" by simp_all
  have q: "0 \<le> n div 96" using n0 by (simp add: pos_imp_zdiv_nonneg_iff)
  have nq: "n = 96 * (n div 96) + n mod 96" by (simp only: mult_div_mod_eq)
  have succ: "(n mod 96 = 95 \<longrightarrow> (n + 1) div 96 = n div 96 + 1 \<and> (n + 1) mod 96 = 0) \<and>
    (n mod 96 \<noteq> 95 \<longrightarrow> (n + 1) div 96 = n div 96 \<and> (n + 1) mod 96 = n mod 96 + 1)"
  proof (cases "n mod 96 = 95")
    case True
    from succ_div_mod_96(1) [OF True] True show ?thesis by simp
  next
    case False
    from succ_div_mod_96(2) [OF False] False show ?thesis by simp
  qed
  show ?thesis
    by (rule step_qr [OF r q nq succ z p1 p2 p3 f d1 d2 l' on'])
qed

lemma tickInv_step_facts:
  assumes inv: "tickInv s"
  shows "m_lastEmittedWholeNote (handleMIDIClock now s) = (m_clockCount s + 1) div 96
          \<or> (m_lastEmittedWholeNote (handleMIDIClock now s) = (m_clockCount s + 1) div 96 + 1
             \<and> 88 \<le> (m_clockCount s + 1) mod 96)"
    and "(m_clockCount s + 1) mod 96 = 95 \<longrightarrow>
          m_lastEmittedWholeNote (handleMIDIClock now s) = (m_clockCount s + 1) div 96 + 1"
    and "m_noteOn (handleMIDIClock now s) \<longleftrightarrow>
          (m_clockCount s + 1 = 1 \<or> (m_clockCount s + 1) mod 96 = 0
           \<or> m_lastEmittedWholeNote (handleMIDIClock now s) = (m_clockCount s + 1) div 96 + 1)"
    and "spec_first_downbeat (m_clockCount s + 1) (m_lastEmittedWholeNote s)
         \<or> spec_next_due (m_clockCount s + 1) (m_lastEmittedWholeNote s) (m_currentBPM s) \<longrightarrow>
          m_lastEmittedWholeNote (handleMIDIClock now s) = m_lastEmittedWholeNote s + 1
          \<and> \<not> m_noteOn s"
    and "\<not> (spec_first_downbeat (m_clockCount s + 1) (m_lastEmittedWholeNote s)
            \<or> spec_next_due (m_clockCount s + 1) (m_lastEmittedWholeNote s) (m_currentBPM s)) \<longrightarrow>
          m_lastEmittedWholeNote (handleMIDIClock now s) = m_lastEmittedWholeNote s"
    and "spec_first_downbeat (m_clockCount s + 1) (m_lastEmittedWholeNote s) \<longleftrightarrow>
          m_clockCount s = 0"
    and "m_noteOn s \<and> 0 < (m_clockCount s + 1) mod 96 \<and> (m_clockCount s + 1) mod 96 < 10 \<longrightarrow>
          \<not> (spec_first_downbeat (m_clockCount s + 1) (m_lastEmittedWholeNote s)
             \<or> spec_next_due (m_clockCount s + 1) (m_lastEmittedWholeNote s) (m_currentBPM s))"
proof -
  from inv have run: "m_isRunning s" and eng: "m_engine s" and inr: "bpmInRange s"
    and n0: "0 \<le> m_clockCount s"
    and z: "m_clockCount s = 0 \<longrightarrow> m_lastEmittedWholeNote s = - 1 \<and> \<not> m_noteOn s"
    and p1: "1 \<le> m_clockCount s \<longrightarrow>
            (m_lastEmittedWholeNote s = m_clockCount s div 96
             \<or> (m_lastEmittedWholeNote s = m_clockCount s div 96 + 1
                \<and> 88 \<le> m_clockCount s mod 96))"
    and p2: "1 \<le> m_clockCount s \<longrightarrow> (m_clockCount s mod 96 = 95 \<longrightarrow>
                  m_lastEmittedWholeNote s = m_clockCount s div 96 + 1)"
    and p3: "1 \<le> m_clockCount s \<longrightarrow> (m_noteOn s \<longleftrightarrow>
                  (m_clockCount s = 1 \<or> m_clockCount s mod 96 = 0
                   \<or> m_lastEmittedWholeNote s = m_clockCount s div 96 + 1))"
    by (simp_all add: tickInv_def)
  from inr have b: "20 \<le> m_currentBPM s" "m_currentBPM s \<le> 300"
    by (simp_all add: bpmInRange_def)
  note t = handleMIDIClock_tick [OF run eng inr, of now]
  have f: "spec_first_downbeat (m_clockCount s + 1) (m_lastEmittedWholeNote s) =
      (0 \<le> m_clockCount s + 1 \<and> m_clockCount s + 1 < 24 \<and> m_lastEmittedWholeNote s < 0)"
    by (rule spec_first_downbeat_iff)
  have d1: "spec_next_due (m_clockCount s + 1) (m_lastEmittedWholeNote s) (m_currentBPM s) \<longrightarrow>
      88 \<le> (m_clockCount s + 1) mod 96
      \<and> m_lastEmittedWholeNote s < (m_clockCount s + 1) div 96 + 1"
    using spec_next_due_window [OF b] by blast
  have d2: "(m_clockCount s + 1) mod 96 = 95
      \<and> m_lastEmittedWholeNote s < (m_clockCount s + 1) div 96 + 1 \<longrightarrow>
      spec_next_due (m_clockCount s + 1) (m_lastEmittedWholeNote s) (m_currentBPM s)"
    using spec_next_due_last_tick [OF b] by blast
  note all = step_abstract [OF n0 z p1 p2 p3 f d1 d2 t(2) t(3)]
  from all show "m_lastEmittedWholeNote (handleMIDIClock now s) = (m_clockCount s + 1) div 96
          \<or> (m_lastEmittedWholeNote (handleMIDIClock now s) = (m_clockCount s + 1) div 96 + 1
             \<and> 88 \<le> (m_clockCount s + 1) mod 96)"
    by (elim conjE)
  from all show "(m_clockCount s + 1) mod 96 = 95 \<longrightarrow>
          m_lastEmittedWholeNote (handleMIDIClock now s) = (m_clockCount s + 1) div 96 + 1"
    by (elim conjE)
  from all show "m_noteOn (handleMIDIClock now s) \<longleftrightarrow>
          (m_clockCount s + 1 = 1 \<or> (m_clockCount s + 1) mod 96 = 0
           \<or> m_lastEmittedWholeNote (handleMIDIClock now s) = (m_clockCount s + 1) div 96 + 1)"
    by (elim conjE)
  from all show "spec_first_downbeat (m_clockCount s + 1) (m_lastEmittedWholeNote s)
         \<or> spec_next_due (m_clockCount s + 1) (m_lastEmittedWholeNote s) (m_currentBPM s) \<longrightarrow>
          m_lastEmittedWholeNote (handleMIDIClock now s) = m_lastEmittedWholeNote s + 1
          \<and> \<not> m_noteOn s"
    by (elim conjE)
  from all show "\<not> (spec_first_downbeat (m_clockCount s + 1) (m_lastEmittedWholeNote s)
            \<or> spec_next_due (m_clockCount s + 1) (m_lastEmittedWholeNote s) (m_currentBPM s)) \<longrightarrow>
          m_lastEmittedWholeNote (handleMIDIClock now s) = m_lastEmittedWholeNote s"
    by (elim conjE)
  from all show "spec_first_downbeat (m_clockCount s + 1) (m_lastEmittedWholeNote s) \<longleftrightarrow>
          m_clockCount s = 0"
    by (elim conjE)
  from all show "m_noteOn s \<and> 0 < (m_clockCount s + 1) mod 96 \<and> (m_clockCount s + 1) mod 96 < 10 \<longrightarrow>
          \<not> (spec_first_downbeat (m_clockCount s + 1) (m_lastEmittedWholeNote s)
             \<or> spec_next_due (m_clockCount s + 1) (m_lastEmittedWholeNote s) (m_currentBPM s))"
    by (elim conjE)
qed

lemma tickInv_handleMIDIClock:
  assumes "tickInv s"
  shows "tickInv (handleMIDIClock now s)"
proof -
  from assms have run: "m_isRunning s" and eng: "m_engine s" and inr: "bpmInRange s"
    and n0: "0 \<le> m_clockCount s"
    by (simp_all add: tickInv_def)
  note t = handleMIDIClock_tick [OF run eng inr, of now]
  note f = tickInv_step_facts(1,2,3) [OF assms, of now]
  have c: "m_clockCount (handleMIDIClock now s) = m_clockCount s + 1" by (rule t(1))
  from n0 have n1: "0 \<le> m_clockCount s + 1" "m_clockCount s + 1 \<noteq> 0" by simp_all
  show ?thesis
    unfolding tickInv_def c
    using f n1 run eng handleMIDIClock_bpmInRange [OF inr, of now]
    by (simp add: handleMIDIClock_frame)
qed

lemma tick_emitted_iff:
  assumes "tickInv s"
  shows "(spec_first_downbeat (m_clockCount s + 1) (m_lastEmittedWholeNote s)
      \<or> spec_next_due (m_clockCount s + 1) (m_lastEmittedWholeNote s) (m_currentBPM s))
     = (m_lastEmittedWholeNote (handleMIDIClock now s) \<noteq> m_lastEmittedWholeNote s)"
  using tickInv_step_facts(4,5) [OF assms, of now]
  by (cases "spec_first_downbeat (m_clockCount s + 1) (m_lastEmittedWholeNote s)
      \<or> spec_next_due (m_clockCount s + 1) (m_lastEmittedWholeNote s) (m_currentBPM s)")
    simp_all

lemma tick_outputs:
  assumes "tickInv s"
  shows "m_out (handleMIDIClock now s) =
           m_out s
           @ (if m_noteOn s \<and> 0 < (m_clockCount s + 1) mod 96 \<and> (m_clockCount s + 1) mod 96 < 10
              then [NoteOff (m_midiChannel s) (m_midiNote s) 0] else [])
           @ (if m_lastEmittedWholeNote (handleMIDIClock now s) \<noteq> m_lastEmittedWholeNote s
              then [NoteOn (m_midiChannel s) (m_midiNote s) (m_midiVelocity s),
                    BeatSent (m_lastEmittedWholeNote (handleMIDIClock now s) * 4),
                    PositionChanged
                      (static_cast_int (real_of_int (m_clockCount s + 1) / 24 * 4))
                      (real_of_int (m_clockCount s + 1) / 24)]
              else [])
           @ [ClockTick]"
proof -
  from assms have run: "m_isRunning s" and eng: "m_engine s" and inr: "bpmInRange s"
    by (simp_all add: tickInv_def)
  note t = handleMIDIClock_tick [OF run eng inr, of now]
  note e = tick_emitted_iff [OF assms, of now]
  let ?F = "spec_first_downbeat (m_clockCount s + 1) (m_lastEmittedWholeNote s)"
  let ?N = "spec_next_due (m_clockCount s + 1) (m_lastEmittedWholeNote s) (m_currentBPM s)"
  have b: "(if ?F then 0 else (m_clockCount s + 1) div 96 + 1)
       = m_lastEmittedWholeNote (handleMIDIClock now s)" if "?F \<or> ?N"
    using that by (cases ?F) (simp_all add: t(2))
  show ?thesis
  proof (cases "?F \<or> ?N")
    case True
    from True e have ne: "m_lastEmittedWholeNote (handleMIDIClock now s) \<noteq> m_lastEmittedWholeNote s"
      by simp
    have "m_out (handleMIDIClock now s) =
           m_out s
           @ (if m_noteOn s \<and> 0 < (m_clockCount s + 1) mod 96 \<and> (m_clockCount s + 1) mod 96 < 10
              then [NoteOff (m_midiChannel s) (m_midiNote s) 0] else [])
           @ [NoteOn (m_midiChannel s) (m_midiNote s) (m_midiVelocity s),
                    BeatSent ((if ?F then 0 else (m_clockCount s + 1) div 96 + 1) * 4),
                    PositionChanged
                      (static_cast_int (real_of_int (m_clockCount s + 1) / 24 * 4))
                      (real_of_int (m_clockCount s + 1) / 24)]
           @ [ClockTick]"
      using True by (simp only: t(5) if_True)
    then show ?thesis by (simp only: b [OF True] ne if_True not_False_eq_True)
  next
    case False
    from False e have eq: "m_lastEmittedWholeNote (handleMIDIClock now s) = m_lastEmittedWholeNote s"
      by simp
    have "m_out (handleMIDIClock now s) =
           m_out s
           @ (if m_noteOn s \<and> 0 < (m_clockCount s + 1) mod 96 \<and> (m_clockCount s + 1) mod 96 < 10
              then [NoteOff (m_midiChannel s) (m_midiNote s) 0] else [])
           @ []
           @ [ClockTick]"
      using False by (simp only: t(5) if_False)
    then show ?thesis by (simp only: eq if_False simp_thms)
  qed
qed

lemma count_append:
  "noteOnCount (xs @ ys) = noteOnCount xs + noteOnCount ys"
  "noteOffCount (xs @ ys) = noteOffCount xs + noteOffCount ys"
  by (simp_all add: noteOnCount_def noteOffCount_def)

lemma count_simps:
  "noteOnCount [] = 0" "noteOffCount [] = 0"
  "noteOnCount (e # es) = (if isNoteOn e then 1 else 0) + noteOnCount es"
  "noteOffCount (e # es) = (if isNoteOff e then 1 else 0) + noteOffCount es"
  by (simp_all add: noteOnCount_def noteOffCount_def)

lemma tick_balance:
  assumes "tickInv s"
  shows "int (noteOnCount (m_out (handleMIDIClock now s)))
           - m_lastEmittedWholeNote (handleMIDIClock now s)
         = int (noteOnCount (m_out s)) - m_lastEmittedWholeNote s"
    and "int (noteOffCount (m_out (handleMIDIClock now s)))
           + ofBool (m_noteOn (handleMIDIClock now s))
           - m_lastEmittedWholeNote (handleMIDIClock now s)
         = int (noteOffCount (m_out s)) + ofBool (m_noteOn s) - m_lastEmittedWholeNote s"
proof -
  from assms have run: "m_isRunning s" and eng: "m_engine s" and inr: "bpmInRange s"
    by (simp_all add: tickInv_def)
  note t = handleMIDIClock_tick [OF run eng inr, of now]
  note e = tick_emitted_iff [OF assms, of now]
  note f = tickInv_step_facts(4,5) [OF assms, of now]
  note out = tick_outputs [OF assms, of now]
  let ?E = "spec_first_downbeat (m_clockCount s + 1) (m_lastEmittedWholeNote s)
      \<or> spec_next_due (m_clockCount s + 1) (m_lastEmittedWholeNote s) (m_currentBPM s)"
  have both: "int (noteOnCount (m_out (handleMIDIClock now s)))
           - m_lastEmittedWholeNote (handleMIDIClock now s)
         = int (noteOnCount (m_out s)) - m_lastEmittedWholeNote s
     \<and> int (noteOffCount (m_out (handleMIDIClock now s)))
           + ofBool (m_noteOn (handleMIDIClock now s))
           - m_lastEmittedWholeNote (handleMIDIClock now s)
         = int (noteOffCount (m_out s)) + ofBool (m_noteOn s) - m_lastEmittedWholeNote s"
  proof (cases ?E)
    case True
    with f have l: "m_lastEmittedWholeNote (handleMIDIClock now s) = m_lastEmittedWholeNote s + 1"
      and off: "\<not> m_noteOn s" by simp_all
    from True t(3) have on: "m_noteOn (handleMIDIClock now s)" by blast
    have o: "m_out (handleMIDIClock now s) =
        m_out s @ [NoteOn (m_midiChannel s) (m_midiNote s) (m_midiVelocity s),
                   BeatSent (m_lastEmittedWholeNote (handleMIDIClock now s) * 4),
                   PositionChanged
                     (static_cast_int (real_of_int (m_clockCount s + 1) / 24 * 4))
                     (real_of_int (m_clockCount s + 1) / 24)] @ [ClockTick]"
      using out l off by simp
    show ?thesis
      by (simp add: o count_append count_simps l on off ofBool_def)
  next
    case False
    with f have l: "m_lastEmittedWholeNote (handleMIDIClock now s) = m_lastEmittedWholeNote s"
      by simp
    let ?O = "m_noteOn s \<and> 0 < (m_clockCount s + 1) mod 96 \<and> (m_clockCount s + 1) mod 96 < 10"
    from False t(3) have on: "m_noteOn (handleMIDIClock now s) = (m_noteOn s \<and> \<not> ?O)"
      by blast
    have o: "m_out (handleMIDIClock now s) =
        m_out s @ (if ?O then [NoteOff (m_midiChannel s) (m_midiNote s) 0] else [])
        @ [ClockTick]"
      using out l by simp
    show ?thesis
      by (cases ?O) (simp_all add: o count_append count_simps l on ofBool_def)
  qed
  from both show "int (noteOnCount (m_out (handleMIDIClock now s)))
           - m_lastEmittedWholeNote (handleMIDIClock now s)
         = int (noteOnCount (m_out s)) - m_lastEmittedWholeNote s"
    by (elim conjE)
  from both show "int (noteOffCount (m_out (handleMIDIClock now s)))
           + ofBool (m_noteOn (handleMIDIClock now s))
           - m_lastEmittedWholeNote (handleMIDIClock now s)
         = int (noteOffCount (m_out s)) + ofBool (m_noteOn s) - m_lastEmittedWholeNote s"
    by (elim conjE)
qed

lemma clocks_tickInv:
  "tickInv s \<Longrightarrow>
   tickInv (clocks ts s)
   \<and> m_clockCount (clocks ts s) = m_clockCount s + int (length ts)
   \<and> m_transportSyncBlocked (clocks ts s) = m_transportSyncBlocked s
   \<and> int (noteOnCount (m_out (clocks ts s))) - m_lastEmittedWholeNote (clocks ts s)
       = int (noteOnCount (m_out s)) - m_lastEmittedWholeNote s
   \<and> int (noteOffCount (m_out (clocks ts s))) + ofBool (m_noteOn (clocks ts s))
         - m_lastEmittedWholeNote (clocks ts s)
       = int (noteOffCount (m_out s)) + ofBool (m_noteOn s) - m_lastEmittedWholeNote s"
proof (induction ts arbitrary: s)
  case Nil
  then show ?case by simp
next
  case (Cons t ts)
  from Cons.prems have run: "m_isRunning s" and eng: "m_engine s" and inr: "bpmInRange s"
    by (simp_all add: tickInv_def)
  have inv': "tickInv (handleMIDIClock t s)" by (rule tickInv_handleMIDIClock [OF Cons.prems])
  note ih = Cons.IH [OF inv']
  note c = handleMIDIClock_tick(1) [OF run eng inr, of t]
  note b = tick_balance [OF Cons.prems, of t]
  from ih show ?case
    by (simp add: c b handleMIDIClock_frame)
qed

lemma not_running_noteOn:
  "\<not> m_isRunning s \<Longrightarrow> m_noteOn (handleMIDIClock now s) = m_noteOn s"
  "\<not> m_isRunning s \<Longrightarrow> m_noteOn (handleSongPositionPointer pb pq s) = m_noteOn s"
  "\<not> m_isRunning s \<Longrightarrow> m_noteOn (onSyncTick s) = m_noteOn s"
  by (simp_all add: handleMIDIClock_def handleSongPositionPointer_def onSyncTick_def
      sppUpdate_def Let_def emit_def bpmWindow_frame clockAdvance_frame)

lemma running_frame:
  "m_isRunning (handleSongPositionPointer pb pq s) = m_isRunning s"
  "m_engine (handleSongPositionPointer pb pq s) = m_engine s"
  "m_isRunning (onSyncTick s) = m_isRunning s"
  "m_engine (onSyncTick s) = m_engine s"
  by (simp_all add: handleSongPositionPointer_def onSyncTick_def
      sppUpdate_def Let_def emit_def checkAndEmitWholeNote_frame)

lemma reachable_stopped_silent:
  "reachable s \<Longrightarrow> \<not> m_isRunning s \<longrightarrow> m_engine s \<longrightarrow> \<not> m_noteOn s"
proof (induction rule: reachable.induct)
  case (r_init engine now)
  show ?case by (simp add: SyncController_def)
next
  case (r_setBPM s bpm)
  then show ?case by (simp add: setBPM_def Let_def emit_def updateSyncTimer_def)
next
  case (r_blockBPMUpdates s block)
  then show ?case by (simp add: blockBPMUpdates_def)
next
  case (r_blockTransportSync s block)
  then show ?case by (simp add: blockTransportSync_def)
next
  case (r_start s sendStartCommand now)
  then show ?case by (simp add: start_def Let_def emit_def updateSyncTimer_def)
next
  case (r_stop s sendStopCommand)
  then show ?case by (simp add: stop_def Let_def emit_def)
next
  case (r_handleDAWStart s now)
  then show ?case by (simp add: handleDAWStart_def Let_def emit_def)
next
  case (r_handleDAWStop s)
  then show ?case by (simp add: handleDAWStop_def stop_def Let_def emit_def)
next
  case (r_handleDAWContinue s now)
  then show ?case by (simp add: handleDAWContinue_def Let_def emit_def)
next
  case (r_handleMIDIClock s now)
  then show ?case by (simp add: handleMIDIClock_frame not_running_noteOn)
next
  case (r_handleSongPositionPointer s positionBeats positionQuarterNotes)
  then show ?case by (simp add: running_frame not_running_noteOn)
next
  case (r_onSyncTick s)
  then show ?case by (simp add: running_frame not_running_noteOn)
next
  case (r_updateBPMFromDAW s bpm)
  then show ?case by (simp add: updateBPMFromDAW_def Let_def emit_def updateSyncTimer_def)
qed

lemma handleDAWStart_ready:
  assumes "reachable s" "\<not> m_isRunning s" "\<not> m_transportSyncBlocked s" "m_engine s"
  shows "tickInv (handleDAWStart now s)"
    and "m_clockCount (handleDAWStart now s) = 0"
    and "m_lastEmittedWholeNote (handleDAWStart now s) = - 1"
    and "\<not> m_noteOn (handleDAWStart now s)"
    and "\<not> m_transportSyncBlocked (handleDAWStart now s)"
    and "m_out (handleDAWStart now s) = m_out s @ [RunningChanged True]"
    and "s_clockWindow (handleDAWStart now s) = 0"
proof -
  from reachable_stopped_silent [OF assms(1)] assms(2,4) have off: "\<not> m_noteOn s" by simp
  from reachable_bpmInRange [OF assms(1)] have inr: "bpmInRange s" .
  show "tickInv (handleDAWStart now s)"
    using assms(2-4) off inr
    by (simp add: tickInv_def handleDAWStart_def Let_def emit_def bpmInRange_def)
  show "m_clockCount (handleDAWStart now s) = 0"
    and "m_lastEmittedWholeNote (handleDAWStart now s) = - 1"
    and "\<not> m_noteOn (handleDAWStart now s)"
    and "\<not> m_transportSyncBlocked (handleDAWStart now s)"
    and "m_out (handleDAWStart now s) = m_out s @ [RunningChanged True]"
    and "s_clockWindow (handleDAWStart now s) = 0"
    using assms(2-4) off by (simp_all add: handleDAWStart_def Let_def emit_def)
qed

lemma handleDAWStop_out:
  assumes "m_isRunning s" "\<not> m_transportSyncBlocked s" "m_engine s"
  shows "m_out (handleDAWStop s) =
           m_out s
           @ (if m_noteOn s then [NoteOff (m_midiChannel s) (m_midiNote s) 0] else [])
           @ [RunningChanged False, PositionChanged 0 0]"
    and "\<not> m_isRunning (handleDAWStop s)" and "\<not> m_noteOn (handleDAWStop s)"
  using assms by (simp_all add: handleDAWStop_def stop_def Let_def emit_def)

lemma run_counts:
  assumes "reachable s" "\<not> m_isRunning s" "\<not> m_transportSyncBlocked s" "m_engine s"
  shows "int (noteOffCount (m_out (handleDAWStop (clocks ts (handleDAWStart now s)))))
           - int (noteOffCount (m_out s))
         = int (noteOnCount (m_out (handleDAWStop (clocks ts (handleDAWStart now s)))))
           - int (noteOnCount (m_out s))"
    and "length ts = 0 \<longrightarrow>
           noteOnCount (m_out (handleDAWStop (clocks ts (handleDAWStart now s))))
           = noteOnCount (m_out s)"
    and "1 \<le> length ts \<and> length ts mod 96 < 88 \<longrightarrow>
           noteOnCount (m_out (handleDAWStop (clocks ts (handleDAWStart now s))))
           = noteOnCount (m_out s) + length ts div 96 + 1"
    and "1 \<le> length ts \<and> length ts mod 96 = 95 \<longrightarrow>
           noteOnCount (m_out (handleDAWStop (clocks ts (handleDAWStart now s))))
           = noteOnCount (m_out s) + length ts div 96 + 2"
    and "1 \<le> length ts \<longrightarrow>
           noteOnCount (m_out s) + length ts div 96 + 1
             \<le> noteOnCount (m_out (handleDAWStop (clocks ts (handleDAWStart now s))))
           \<and> noteOnCount (m_out (handleDAWStop (clocks ts (handleDAWStart now s))))
             \<le> noteOnCount (m_out s) + length ts div 96 + 2"
proof -
  let ?s0 = "handleDAWStart now s"
  let ?sN = "clocks ts ?s0"
  let ?f = "handleDAWStop ?sN"
  note st = handleDAWStart_ready [OF assms, of now]
  note run = clocks_tickInv [OF st(1), of ts]
  from run have inv: "tickInv ?sN" and n: "m_clockCount ?sN = int (length ts)"
    and blk: "\<not> m_transportSyncBlocked ?sN"
    and on: "int (noteOnCount (m_out ?sN)) - m_lastEmittedWholeNote ?sN
       = int (noteOnCount (m_out s)) + 1"
    and off: "int (noteOffCount (m_out ?sN)) + ofBool (m_noteOn ?sN)
         - m_lastEmittedWholeNote ?sN = int (noteOffCount (m_out s)) + 1"
    by (simp_all add: st count_append count_simps ofBool_def)
  from inv have r: "m_isRunning ?sN" and e: "m_engine ?sN" by (simp_all add: tickInv_def)
  note out = handleDAWStop_out(1) [OF r blk e]
  have fon: "int (noteOnCount (m_out ?f)) = int (noteOnCount (m_out s)) + 1
      + m_lastEmittedWholeNote ?sN"
    using on by (simp add: out count_append count_simps)
  have foff: "int (noteOffCount (m_out ?f)) = int (noteOffCount (m_out s)) + 1
      + m_lastEmittedWholeNote ?sN"
    using off by (simp add: out count_append count_simps ofBool_def split: if_splits)
  show "int (noteOffCount (m_out ?f)) - int (noteOffCount (m_out s))
         = int (noteOnCount (m_out ?f)) - int (noteOnCount (m_out s))"
    by (simp add: fon foff)
  from inv n have z: "length ts = 0 \<longrightarrow> m_lastEmittedWholeNote ?sN = - 1"
    and p1: "1 \<le> length ts \<longrightarrow>
       (m_lastEmittedWholeNote ?sN = int (length ts) div 96
        \<or> (m_lastEmittedWholeNote ?sN = int (length ts) div 96 + 1
           \<and> 88 \<le> int (length ts) mod 96))"
    and p2: "1 \<le> length ts \<longrightarrow> (int (length ts) mod 96 = 95 \<longrightarrow>
       m_lastEmittedWholeNote ?sN = int (length ts) div 96 + 1)"
    by (simp_all add: tickInv_def)
  have dm: "int (length ts) div 96 = int (length ts div 96)"
    "int (length ts) mod 96 = int (length ts mod 96)"
    by (simp_all add: zdiv_int zmod_int)
  show "length ts = 0 \<longrightarrow> noteOnCount (m_out ?f) = noteOnCount (m_out s)"
    using z fon by auto
  show "1 \<le> length ts \<and> length ts mod 96 < 88 \<longrightarrow>
           noteOnCount (m_out ?f) = noteOnCount (m_out s) + length ts div 96 + 1"
    using p1 fon unfolding dm by auto
  show "1 \<le> length ts \<and> length ts mod 96 = 95 \<longrightarrow>
           noteOnCount (m_out ?f) = noteOnCount (m_out s) + length ts div 96 + 2"
    using p2 fon unfolding dm by auto
  show "1 \<le> length ts \<longrightarrow>
           noteOnCount (m_out s) + length ts div 96 + 1 \<le> noteOnCount (m_out ?f)
           \<and> noteOnCount (m_out ?f) \<le> noteOnCount (m_out s) + length ts div 96 + 2"
    using p1 fon unfolding dm by auto
qed

text \<open>
  C2 (amended). Take a reachable state that is stopped, with an engine attached and
  transport sync not blocked, and the events inbound Start, \<open>N\<close> inbound clocks (at any
  instants), inbound Stop. The note-offs sent are as many as the note-ons, counting the
  note-off that Stop sends for a note still sounding. The note-ons are \<open>N div 96 + 1\<close>
  when \<open>N \<ge> 1\<close> and \<open>N mod 96 < 88\<close>, that is when Stop does not arrive within the
  advance window before the next boundary; they are none when \<open>N = 0\<close>, since the first
  downbeat is emitted on the first clock; they are \<open>N div 96 + 2\<close> when
  \<open>N mod 96 = 95\<close>, the note-on of the next boundary having been sent ahead of it; and for
  every \<open>N \<ge> 1\<close> they are one of the two.
\<close>

theorem C2_start_clocks_stop_counts:
  assumes "reachable s" and "\<not> m_isRunning s" and "\<not> m_transportSyncBlocked s"
    and "m_engine s"
  shows "let final = handleDAWStop (clocks ts (handleDAWStart now s));
             N = length ts;
             note_ons = noteOnCount (m_out final);
             note_offs = noteOffCount (m_out final)
         in int note_offs - int (noteOffCount (m_out s))
              = int note_ons - int (noteOnCount (m_out s))
            \<and> (N = 0 \<longrightarrow> note_ons = noteOnCount (m_out s))
            \<and> (1 \<le> N \<and> N mod 96 < 88 \<longrightarrow> note_ons = noteOnCount (m_out s) + N div 96 + 1)
            \<and> (1 \<le> N \<and> N mod 96 = 95 \<longrightarrow> note_ons = noteOnCount (m_out s) + N div 96 + 2)
            \<and> (1 \<le> N \<longrightarrow> noteOnCount (m_out s) + N div 96 + 1 \<le> note_ons
                          \<and> note_ons \<le> noteOnCount (m_out s) + N div 96 + 2)"
  unfolding Let_def
  using run_counts [OF assms, of ts now] by blast

text \<open>On a fresh controller, 96 clocks between Start and Stop give two note-ons and two
  note-offs.\<close>

theorem C2_start_clocks_stop_counts_witness:
  "reachable (SyncController True 0)
   \<and> \<not> m_isRunning (SyncController True 0)
   \<and> \<not> m_transportSyncBlocked (SyncController True 0)
   \<and> m_engine (SyncController True 0)
   \<and> noteOnCount (m_out (handleDAWStop (clocks (metronome 20000000 96)
         (handleDAWStart 0 (SyncController True 0))))) = 2
   \<and> noteOffCount (m_out (handleDAWStop (clocks (metronome 20000000 96)
         (handleDAWStart 0 (SyncController True 0))))) = 2"
proof -
  have r: "reachable (SyncController True 0)" by (rule reachable.intros)
  have v: "\<not> m_isRunning (SyncController True 0)"
    "\<not> m_transportSyncBlocked (SyncController True 0)" "m_engine (SyncController True 0)"
    "m_out (SyncController True 0) = []"
    by (simp_all add: SyncController_def)
  have l: "length (metronome 20000000 96) = 96" by (simp add: metronome_def)
  show ?thesis
    using C2_start_clocks_stop_counts [OF r v(1-3), of "metronome 20000000 96" 0] r
    by (simp add: Let_def v l count_simps)
qed

text \<open>
  The claim as stated fails on a fresh controller: with no clock between Start and Stop
  no note-on is sent, where the claim counts \<open>0 div 96 + 1 = 1\<close>; with 95 clocks two
  note-ons are sent, the second one ahead of boundary 1, where the claim counts
  \<open>95 div 96 + 1 = 1\<close>.
\<close>

theorem C2_start_clocks_stop_counterexample:
  "noteOnCount (m_out (handleDAWStop (clocks []
       (handleDAWStart 0 (SyncController True 0))))) = 0
   \<and> noteOnCount (m_out (handleDAWStop (clocks []
       (handleDAWStart 0 (SyncController True 0))))) \<noteq> 0 div 96 + 1
   \<and> noteOnCount (m_out (handleDAWStop (clocks (metronome 20000000 95)
       (handleDAWStart 0 (SyncController True 0))))) = 2
   \<and> noteOnCount (m_out (handleDAWStop (clocks (metronome 20000000 95)
       (handleDAWStart 0 (SyncController True 0))))) \<noteq> 95 div 96 + 1"
proof -
  have r: "reachable (SyncController True 0)" by (rule reachable.intros)
  have v: "\<not> m_isRunning (SyncController True 0)"
    "\<not> m_transportSyncBlocked (SyncController True 0)" "m_engine (SyncController True 0)"
    "m_out (SyncController True 0) = []"
    by (simp_all add: SyncController_def)
  have l: "length (metronome 20000000 95) = 95" by (simp add: metronome_def)
  from run_counts(2) [OF r v(1-3), of "[]" 0]
  have a: "noteOnCount (m_out (handleDAWStop (clocks []
       (handleDAWStart 0 (SyncController True 0))))) = 0"
    by (simp add: v count_simps)
  from run_counts(4) [OF r v(1-3), of "metronome 20000000 95" 0]
  have b: "noteOnCount (m_out (handleDAWStop (clocks (metronome 20000000 95)
       (handleDAWStart 0 (SyncController True 0))))) = 2"
    by (simp add: v l count_simps)
  show ?thesis by (simp only: a b) simp
qed

section \<open>The release of the note\<close>












section \<open>The BPM estimator\<close>









section \<open>The song position pointer\<close>

lemma static_cast_int_nonneg: "0 \<le> x \<Longrightarrow> static_cast_int x = \<lfloor>x\<rfloor>"
  by (simp add: static_cast_int_def)

lemma sppUpdate_fields:
  assumes "0 \<le> pb" "0 \<le> pq"
  shows "m_lastEmittedWholeNote (sppUpdate pb pq s) =
           (if \<not> m_isRunning s \<or> pq < m_currentPositionQuarterNotes s - 0.5
            then spec_rebase pq else m_lastEmittedWholeNote s)"
    and "m_currentBPM (sppUpdate pb pq s) = m_currentBPM s"
    and "m_isRunning (sppUpdate pb pq s) = m_isRunning s"
    and "m_clockCount (sppUpdate pb pq s) = pb * 4"
    and "m_currentPositionQuarterNotes (sppUpdate pb pq s) = pq"
  using assms
  by (simp_all add: sppUpdate_def Let_def spec_rebase_def static_cast_int_nonneg)

lemma handleSongPositionPointer_running:
  assumes "m_isRunning s" "0 \<le> pb" "0 \<le> pq"
  shows "handleSongPositionPointer pb pq s =
           emit (PositionChanged pb pq) (checkAndEmitWholeNote pq (sppUpdate pb pq s))"
  using assms by (simp add: handleSongPositionPointer_def Let_def sppUpdate_fields)

text \<open>
  C5 (amended). On a song position pointer received while running (position in sixteenths
  and in quarter notes not negative), the update of the position rebases the last emitted
  boundary as claimed: on a backwards seek (new position below the previous one minus 0.5)
  it becomes \<open>wn - 1\<close> when the fraction into the whole note is below 2 and \<open>wn\<close>
  otherwise, with \<open>wn = floor(quarter_notes / 4)\<close>; otherwise it is left unchanged. The
  handler then runs the scheduler once at the new position, so when it returns the last
  emitted boundary is that value only if the scheduler does not emit there: it is 0 on a
  first downbeat (whole note 0, value below 0, position below 1) and \<open>wn + 1\<close> when
  the next boundary is beyond the value and within the advance window.
\<close>

theorem C5_spp_rebase:
  assumes "reachable s" and "m_isRunning s" and "0 \<le> pb" and "0 \<le> pq"
  shows "let previous = m_currentPositionQuarterNotes s;
             rebased = (if pq < previous - 0.5 then spec_rebase pq
                        else m_lastEmittedWholeNote s);
             wn = \<lfloor>pq / 4\<rfloor>;
             first = (wn = 0 \<and> rebased < 0 \<and> pq < 1);
             next = (wn + 1 > rebased
                     \<and> (4 - (pq - real_of_int wn * 4)) * 24
                          \<le> spec_advance_ticks (m_currentBPM s))
         in m_lastEmittedWholeNote (sppUpdate pb pq s) = rebased
            \<and> m_lastEmittedWholeNote (handleSongPositionPointer pb pq s) =
                (if first then 0 else if next then wn + 1 else rebased)"
proof -
  from reachable_bpmInRange [OF assms(1)]
  have b: "20 \<le> m_currentBPM s" "m_currentBPM s \<le> 300" by (simp_all add: bpmInRange_def)
  note u = sppUpdate_fields [OF assms(3,4), of s]
  have adv: "emissionAdvanceTicksOf (m_currentBPM s) = spec_advance_ticks (m_currentBPM s)"
    by (rule spec_advance_ticks_eq [OF b])
  show ?thesis
    using assms(2)
    by (simp add: Let_def handleSongPositionPointer_running [OF assms(2-4)] emit_def
        checkAndEmitWholeNote_lastEmitted u shouldEmitOf_def boundaryToEmitOf_def
        isFirstDownbeatOf_def currentBoundaryOf_def ticksToNextBoundaryOf_def
        positionInBoundaryOf_def adv CLOCKS_PER_QUARTER_NOTE_def)
qed

text \<open>
  The theorem in a run that a first pointer has moved to quarter note 10: a pointer back
  to quarter note 4 is a backwards seek and rebases to \<open>wn - 1 = 0\<close>; a pointer on to
  quarter note 11 leaves the value \<open>- 1\<close>; the scheduler emits at neither position.
\<close>

theorem C5_spp_rebase_witness:
  "reachable (handleSongPositionPointer 40 10 (handleDAWStart 0 (SyncController True 0)))
   \<and> m_isRunning (handleSongPositionPointer 40 10 (handleDAWStart 0 (SyncController True 0)))
   \<and> spec_rebase 4 = 0
   \<and> m_lastEmittedWholeNote (sppUpdate 16 4
        (handleSongPositionPointer 40 10 (handleDAWStart 0 (SyncController True 0)))) = 0
   \<and> m_lastEmittedWholeNote (handleSongPositionPointer 16 4
        (handleSongPositionPointer 40 10 (handleDAWStart 0 (SyncController True 0)))) = 0
   \<and> m_lastEmittedWholeNote (sppUpdate 44 11
        (handleSongPositionPointer 40 10 (handleDAWStart 0 (SyncController True 0)))) = - 1
   \<and> m_lastEmittedWholeNote (handleSongPositionPointer 44 11
        (handleSongPositionPointer 40 10 (handleDAWStart 0 (SyncController True 0)))) = - 1"
proof -
  let ?s = "handleSongPositionPointer 40 10 (handleDAWStart 0 (SyncController True 0))"
  have r: "reachable ?s" by (intro reachable.intros)
  have v: "m_isRunning ?s" "m_currentPositionQuarterNotes ?s = 10"
    "m_lastEmittedWholeNote ?s = - 1" "m_currentBPM ?s = 120"
    by (simp_all add: eval_defs)
  have b: "spec_rebase 4 = 0" by (simp add: spec_rebase_def)
  have a: "spec_advance_ticks 120 = 84 / 25"
    by (simp add: spec_advance_ticks_def EMISSION_ADVANCE_MS_def)
  show ?thesis
    using C5_spp_rebase [OF r v(1), of 16 4] C5_spp_rebase [OF r v(1), of 44 11] r b
    by (simp add: Let_def v a)
qed

text \<open>
  The claim as stated fails when the handler returns. Right after an inbound Start, a
  pointer to the first sixteenth (quarter note 0.25) is a forward motion, yet the last
  emitted boundary changes from \<open>- 1\<close> to 0: the scheduler run by the handler emits the
  first downbeat. In a run at quarter note 10, the same pointer is a backwards seek whose
  rebase gives \<open>wn - 1 = - 1\<close>, yet the handler leaves 0 for the same reason.
\<close>

theorem C5_spp_rebase_counterexample:
  "m_isRunning (handleDAWStart 0 (SyncController True 0))
   \<and> \<not> (1 / 4 < m_currentPositionQuarterNotes (handleDAWStart 0 (SyncController True 0)) - 1 / 2)
   \<and> m_lastEmittedWholeNote (handleDAWStart 0 (SyncController True 0)) = - 1
   \<and> m_lastEmittedWholeNote
        (midiSongPositionPointerReceived 1 0 (handleDAWStart 0 (SyncController True 0))) = 0
   \<and> m_isRunning (handleSongPositionPointer 40 10 (handleDAWStart 0 (SyncController True 0)))
   \<and> 1 / 4 < m_currentPositionQuarterNotes
        (handleSongPositionPointer 40 10 (handleDAWStart 0 (SyncController True 0))) - 1 / 2
   \<and> spec_rebase (1 / 4) = - 1
   \<and> m_lastEmittedWholeNote
        (midiSongPositionPointerReceived 1 0
          (handleSongPositionPointer 40 10 (handleDAWStart 0 (SyncController True 0)))) = 0"
  by (simp add: eval_defs spec_rebase_def)

lemma handleSongPositionPointer_position:
  assumes "0 \<le> pb"
  shows "m_clockCount (handleSongPositionPointer pb pq s) = pb * 4"
    and "m_currentPositionQuarterNotes (handleSongPositionPointer pb pq s) = pq"
  using assms
  by (simp_all add: handleSongPositionPointer_def sppUpdate_def Let_def emit_def
      checkAndEmitWholeNote_frame)

text \<open>
  C3. The specification asks for \<open>tick = position_sixteenths * 6\<close>, so that the
  position recomputed as \<open>tick / 24\<close> is \<open>position_sixteenths / 4\<close>. The program does
  otherwise: for every song position pointer with a position \<open>p\<close> other than 0, the
  controller sets the tick counter to \<open>p * 4\<close> and stores the quarter-note position
  \<open>p / 4\<close> computed by the engine; the tick counter is not \<open>p * 6\<close>, and the position
  recomputed from it, \<open>tick / 24\<close>, is not the stored \<open>p / 4\<close>.
\<close>

theorem C3_spp_sets_tick_to_four_times_position:
  assumes "sppPosition lsb msb = p" and "p \<noteq> 0"
  shows "m_clockCount (midiSongPositionPointerReceived lsb msb s) = p * 4
   \<and> m_currentPositionQuarterNotes (midiSongPositionPointerReceived lsb msb s)
       = real_of_int p / 4
   \<and> m_clockCount (midiSongPositionPointerReceived lsb msb s) \<noteq> p * 6
   \<and> real_of_int (m_clockCount (midiSongPositionPointerReceived lsb msb s)) / 24
       \<noteq> real_of_int p / 4"
proof -
  have "0 \<le> p" using assms(1) by (auto simp add: sppPosition_def)
  with assms(2) have pos: "0 < p" by simp
  show ?thesis using pos assms(1)
    by (simp add: midiSongPositionPointerReceived_def onSyncControllerSongPositionPointer_def
        Let_def handleSongPositionPointer_position sppQuarterNotes_def)
qed

text \<open>
  The pointer F2 10 00 (position 16, quarter note 4) on a fresh controller: the tick
  counter becomes 64, not 96, while the stored position is quarter note 4.
\<close>

theorem C3_spp_sets_tick_to_four_times_position_witness:
  "sppPosition 16 0 = 16
   \<and> m_clockCount (midiSongPositionPointerReceived 16 0 (SyncController True 0)) = 64
   \<and> m_currentPositionQuarterNotes
        (midiSongPositionPointerReceived 16 0 (SyncController True 0)) = 4"
  using C3_spp_sets_tick_to_four_times_position [of 16 0 16 "SyncController True 0"]
  by (simp add: sppPosition_def)

section \<open>Starting as master\<close>

lemma start_fields:
  "m_clockCount (start b now s) = m_clockCount s"
  "m_lastEmittedWholeNote (start b now s) = m_lastEmittedWholeNote s"
  "m_noteOn (start b now s) = m_noteOn s"
  "m_clocksSinceLastBoundary (start b now s) = m_clocksSinceLastBoundary s"
  "s_clockWindow (start b now s) = s_clockWindow s"
  "s_lastClockTime (start b now s) = s_lastClockTime s"
  "m_isRunning (start b now s)"
  by (simp_all add: start_def Let_def emit_def updateSyncTimer_def)

text \<open>
  C8. The specification asks \<^verbatim>\<open>start\<close> to reset the tick counter, the boundary state
  and the BPM window. The program does otherwise: \<^verbatim>\<open>start\<close> leaves the tick counter,
  the last emitted boundary, the note flag, the count of clocks since the last boundary and
  the BPM window as they are; it only sets the running flag, the start time and the timer.
  In particular a run started after a song position pointer was received while stopped
  begins at the tick and with the boundary state the pointer left, not at tick 0.
\<close>

theorem C8_start_resets_nothing:
  "m_isRunning (start sendStartCommand now s)
   \<and> m_clockCount (start sendStartCommand now s) = m_clockCount s
   \<and> m_lastEmittedWholeNote (start sendStartCommand now s) = m_lastEmittedWholeNote s
   \<and> m_noteOn (start sendStartCommand now s) = m_noteOn s
   \<and> m_clocksSinceLastBoundary (start sendStartCommand now s) = m_clocksSinceLastBoundary s
   \<and> s_clockWindow (start sendStartCommand now s) = s_clockWindow s
   \<and> s_lastClockTime (start sendStartCommand now s) = s_lastClockTime s
   \<and> (0 \<le> pb \<longrightarrow>
        m_clockCount (start sendStartCommand now (handleSongPositionPointer pb pq s)) = pb * 4)"
  by (simp add: start_fields handleSongPositionPointer_position)

text \<open>
  The pointer F2 10 00 received by a fresh, stopped controller, then \<^verbatim>\<open>start(true)\<close>:
  the run begins at tick 64 with boundary 0 counted as emitted.
\<close>

theorem C8_start_resets_nothing_witness:
  "\<not> m_isRunning (midiSongPositionPointerReceived 16 0 (SyncController True 0))
   \<and> m_isRunning (start True 7 (midiSongPositionPointerReceived 16 0 (SyncController True 0)))
   \<and> m_clockCount
        (start True 7 (midiSongPositionPointerReceived 16 0 (SyncController True 0))) = 64
   \<and> m_lastEmittedWholeNote
        (start True 7 (midiSongPositionPointerReceived 16 0 (SyncController True 0))) = 0"
proof -
  let ?s = "midiSongPositionPointerReceived 16 0 (SyncController True 0)"
  have v: "\<not> m_isRunning ?s" "m_clockCount ?s = 64" "m_lastEmittedWholeNote ?s = 0"
    by (simp_all add: eval_defs)
  show ?thesis
    using C8_start_resets_nothing [of True 7 ?s 0 0] v by simp
qed

end
